theory Spec2Isabelle
  imports Complex_Main "HOL-Library.Word"
begin

unbundle bit_operations_syntax

section \<open>Go library functions used by the access gate\<close>

text \<open>
  The gate of \<^verbatim>\<open>web.go\<close> calls \<^verbatim>\<open>net.SplitHostPort\<close>, \<^verbatim>\<open>netip.ParseAddr\<close>,
  \<^verbatim>\<open>netip.Addr.Is4/As4/Is6/String\<close> and \<^verbatim>\<open>strings.HasPrefix\<close> of the Go standard
  library. They are modelled here after the library's behaviour, as total functions on
  byte strings with errors as \<open>Inl\<close>.
\<close>

type_synonym error = string

definition HasPrefix :: "string \<Rightarrow> string \<Rightarrow> bool" where
  "HasPrefix s prefix = (length prefix \<le> length s \<and> take (length prefix) s = prefix)"

text \<open>Position of the first and of the last occurrence of a byte (\<open>None\<close> for Go's -1).\<close>

fun IndexByte :: "string \<Rightarrow> char \<Rightarrow> nat option" where
  "IndexByte [] c = None"
| "IndexByte (x # xs) c =
     (if x = c then Some 0 else map_option Suc (IndexByte xs c))"

definition LastIndexByte :: "string \<Rightarrow> char \<Rightarrow> nat option" where
  "LastIndexByte s c =
     (case IndexByte (rev s) c of None \<Rightarrow> None | Some k \<Rightarrow> Some (length s - 1 - k))"

text \<open>
  \<^verbatim>\<open>net.SplitHostPort\<close>: the port starts after the last colon; a host in brackets
  ends at the first \<^verbatim>\<open>]\<close>, which must be followed by that colon; an unbracketed host
  must not hold a colon; no other bracket may occur.
\<close>

definition SplitHostPort :: "string \<Rightarrow> error + (string \<times> string)" where
  "SplitHostPort hostport =
     (case LastIndexByte hostport (CHR '':'') of
        None \<Rightarrow> Inl ''missing port in address''
      | Some i \<Rightarrow>
          if hd hostport = CHR ''['' then
            (case IndexByte hostport (CHR '']'') of
               None \<Rightarrow> Inl ''missing ']' in address''
             | Some end \<Rightarrow>
                 if end + 1 = length hostport then Inl ''missing port in address''
                 else if end + 1 \<noteq> i then
                   (if hostport ! (end + 1) = CHR '':'' then Inl ''too many colons in address''
                    else Inl ''missing port in address'')
                 else if IndexByte (drop 1 hostport) (CHR ''['') \<noteq> None
                   then Inl ''unexpected '[' in address''
                 else if IndexByte (drop (end + 1) hostport) (CHR '']'') \<noteq> None
                   then Inl ''unexpected ']' in address''
                 else Inr (take (end - 1) (drop 1 hostport), drop (i + 1) hostport))
          else
            if IndexByte (take i hostport) (CHR '':'') \<noteq> None
              then Inl ''too many colons in address''
            else if IndexByte hostport (CHR ''['') \<noteq> None
              then Inl ''unexpected '[' in address''
            else if IndexByte hostport (CHR '']'') \<noteq> None
              then Inl ''unexpected ']' in address''
            else Inr (take i hostport, drop (i + 1) hostport))"

subsection \<open>\<^verbatim>\<open>netip.Addr\<close>\<close>

text \<open>
  An address is the zero \<^verbatim>\<open>Addr{}\<close>, an IPv4 address of four bytes, or an IPv6 address
  of eight 16-bit groups with a zone (empty for none). An IPv4-mapped IPv6 address is an
  IPv6 address: \<^verbatim>\<open>Is4\<close> is false of it and comparison with \<^verbatim>\<open>==\<close> tells it from the IPv4
  address it embeds.
\<close>

datatype Addr =
    AddrZero
  | Addr4 "8 word" "8 word" "8 word" "8 word"
  | Addr6 "16 word list" string

fun Is4 :: "Addr \<Rightarrow> bool" where
  "Is4 (Addr4 a b c d) = True"
| "Is4 _ = False"

fun Is6 :: "Addr \<Rightarrow> bool" where
  "Is6 (Addr6 gs zone) = True"
| "Is6 _ = False"

fun Is4In6 :: "Addr \<Rightarrow> bool" where
  "Is4In6 (Addr6 gs zone) = (take 6 gs = [0, 0, 0, 0, 0, 0xffff])"
| "Is4In6 _ = False"

text \<open>\<^verbatim>\<open>As4\<close> of an IPv4 or IPv4-mapped address (the library panics on the zero address).\<close>

fun As4 :: "Addr \<Rightarrow> 8 word list" where
  "As4 (Addr4 a b c d) = [a, b, c, d]"
| "As4 (Addr6 gs zone) =
     [ucast (drop_bit 8 (gs ! 6)), ucast (gs ! 6), ucast (drop_bit 8 (gs ! 7)), ucast (gs ! 7)]"
| "As4 AddrZero = []"

subsection \<open>\<^verbatim>\<open>netip.ParseAddr\<close>\<close>

definition isDigit :: "char \<Rightarrow> bool" where
  "isDigit c = (c \<in> set ''0123456789'')"

definition digitVal :: "char \<Rightarrow> nat" where
  "digitVal c = of_char c - 48"

definition isHex :: "char \<Rightarrow> bool" where
  "isHex c = (c \<in> set ''0123456789abcdefABCDEF'')"

definition hexVal :: "char \<Rightarrow> nat" where
  "hexVal c =
     (if isDigit c then of_char c - 48
      else if c \<in> set ''abcdef'' then of_char c - 97 + 10
      else of_char c - 65 + 10)"

text \<open>
  \<^verbatim>\<open>parseIPv4Fields\<close>: decimal fields separated by dots, no leading zero, no value over
  255, exactly four fields. \<open>prev\<close> is the byte before the current one, \<open>val\<close> and
  \<open>digLen\<close> the value and the number of digits of the current field, \<open>fields\<close> the fields
  completed so far.
\<close>

fun parseIPv4Fields ::
  "char option \<Rightarrow> nat \<Rightarrow> nat \<Rightarrow> 8 word list \<Rightarrow> string \<Rightarrow> error + 8 word list" where
  "parseIPv4Fields prev val digLen fields [] =
     (if length fields < 3 then Inl ''IPv4 address too short''
      else Inr (fields @ [of_nat val]))"
| "parseIPv4Fields prev val digLen fields (c # cs) =
     (if isDigit c then
        (if digLen = 1 \<and> val = 0 then Inl ''IPv4 field has octet with leading zero''
         else if val * 10 + digitVal c > 255 then Inl ''IPv4 field has value >255''
         else parseIPv4Fields (Some c) (val * 10 + digitVal c) (digLen + 1) fields cs)
      else if c = CHR ''.'' then
        (if prev = None \<or> cs = [] \<or> prev = Some (CHR ''.'')
           then Inl ''IPv4 field must have at least one digit''
         else if length fields = 3 then Inl ''IPv4 address too long''
         else parseIPv4Fields (Some c) 0 0 (fields @ [of_nat val]) cs)
      else Inl ''unexpected character'')"

definition parseIPv4 :: "string \<Rightarrow> error + Addr" where
  "parseIPv4 s =
     (case parseIPv4Fields None 0 0 [] s of
        Inl e \<Rightarrow> Inl e
      | Inr fs \<Rightarrow> Inr (Addr4 (fs ! 0) (fs ! 1) (fs ! 2) (fs ! 3)))"

definition hexGroup :: "string \<Rightarrow> 16 word" where
  "hexGroup ds = of_nat (foldl (\<lambda>acc c. acc * 16 + hexVal c) 0 ds)"

text \<open>
  The loop of \<^verbatim>\<open>parseIPv6\<close>. \<open>gs\<close> holds the groups parsed so far (the library's byte
  index \<open>i\<close> is twice its length), \<open>ellipsis\<close> the group index of a \<^verbatim>\<open>::\<close> seen. The
  result is the unread rest of the string, the groups and the ellipsis.
\<close>

function parseIPv6_loop ::
  "string \<Rightarrow> 16 word list \<Rightarrow> nat option \<Rightarrow> error + (string \<times> 16 word list \<times> nat option)" where
  "parseIPv6_loop s gs ellipsis =
     (if length gs < 8 then
        (let ds = takeWhile isHex s; rest = dropWhile isHex s in
         if length ds > 4 then Inl ''each group must have 4 or less digits''
         else if ds = [] then Inl ''each colon-separated field must have at least one digit''
         else if rest \<noteq> [] \<and> hd rest = CHR ''.'' then
           (if ellipsis = None \<and> length gs \<noteq> 6
              then Inl ''embedded IPv4 address must replace the final 2 fields of the address''
            else if length gs + 2 > 8
              then Inl ''too many hex fields to fit an embedded IPv4 at the end of the address''
            else
              (case parseIPv4Fields None 0 0 [] s of
                 Inl e \<Rightarrow> Inl e
               | Inr fs \<Rightarrow>
                   Inr ([], gs @ [push_bit 8 (ucast (fs ! 0)) OR ucast (fs ! 1),
                                  push_bit 8 (ucast (fs ! 2)) OR ucast (fs ! 3)], ellipsis)))
         else if rest = [] then Inr ([], gs @ [hexGroup ds], ellipsis)
         else if hd rest \<noteq> CHR '':'' then Inl ''unexpected character, want colon''
         else if length rest = 1 then Inl ''colon must be followed by more characters''
         else if hd (tl rest) = CHR '':'' then
           (if ellipsis \<noteq> None then Inl ''multiple :: in address''
            else if tl (tl rest) = [] then Inr ([], gs @ [hexGroup ds], Some (length gs + 1))
            else parseIPv6_loop (tl (tl rest)) (gs @ [hexGroup ds]) (Some (length gs + 1)))
         else parseIPv6_loop (tl rest) (gs @ [hexGroup ds]) ellipsis)
      else Inr (s, gs, ellipsis))"
  by pat_completeness auto
termination
  by (relation "measure (\<lambda>(s, gs, ellipsis). 8 - length gs)") auto

definition parseIPv6 :: "string \<Rightarrow> error + Addr" where
  "parseIPv6 inp =
     (let s0 = (case IndexByte inp (CHR ''%'') of None \<Rightarrow> inp | Some i \<Rightarrow> take i inp);
          zone = (case IndexByte inp (CHR ''%'') of None \<Rightarrow> [] | Some i \<Rightarrow> drop (i + 1) inp)
      in if IndexByte inp (CHR ''%'') \<noteq> None \<and> zone = [] then Inl ''zone must be a non-empty string''
         else if HasPrefix s0 ''::'' \<and> drop 2 s0 = [] then Inr (Addr6 (replicate 8 0) zone)
         else
           (case (if HasPrefix s0 ''::'' then parseIPv6_loop (drop 2 s0) [] (Some 0)
                  else parseIPv6_loop s0 [] None) of
              Inl e \<Rightarrow> Inl e
            | Inr (s, gs, ellipsis) \<Rightarrow>
                if s \<noteq> [] then Inl ''trailing garbage after address''
                else if length gs < 8 then
                  (case ellipsis of
                     None \<Rightarrow> Inl ''address string too short''
                   | Some e \<Rightarrow> Inr (Addr6 (take e gs @ replicate (8 - length gs) 0 @ drop e gs) zone))
                else if ellipsis \<noteq> None
                  then Inl ''the :: must expand to at least one field of zeroes''
                else Inr (Addr6 gs zone)))"

text \<open>\<^verbatim>\<open>ParseAddr\<close> chooses the family by the first dot, colon or percent sign.\<close>

fun ParseAddr_scan :: "string \<Rightarrow> string \<Rightarrow> error + Addr" where
  "ParseAddr_scan s [] = Inl ''unable to parse IP''"
| "ParseAddr_scan s (c # cs) =
     (if c = CHR ''.'' then parseIPv4 s
      else if c = CHR '':'' then parseIPv6 s
      else if c = CHR ''%'' then Inl ''missing IPv6 address''
      else ParseAddr_scan s cs)"

definition ParseAddr :: "string \<Rightarrow> error + Addr" where
  "ParseAddr s = ParseAddr_scan s s"

subsection \<open>\<^verbatim>\<open>netip.Addr.String\<close>\<close>

definition decimalDigit :: "nat \<Rightarrow> char" where
  "decimalDigit n = char_of (48 + n)"

definition appendDecimal :: "8 word \<Rightarrow> string" where
  "appendDecimal x =
     (if unat x \<ge> 100 then [decimalDigit (unat x div 100)] else []) @
     (if unat x \<ge> 10 then [decimalDigit (unat x div 10 mod 10)] else []) @
     [decimalDigit (unat x mod 10)]"

definition hexDigit :: "nat \<Rightarrow> char" where
  "hexDigit n = ''0123456789abcdef'' ! n"

definition appendHex :: "16 word \<Rightarrow> string" where
  "appendHex x =
     (if unat x \<ge> 0x1000 then [hexDigit (unat x div 0x1000)] else []) @
     (if unat x \<ge> 0x100 then [hexDigit (unat x div 0x100 mod 16)] else []) @
     (if unat x \<ge> 0x10 then [hexDigit (unat x div 0x10 mod 16)] else []) @
     [hexDigit (unat x mod 16)]"

fun join :: "string \<Rightarrow> string list \<Rightarrow> string" where
  "join sep [] = []"
| "join sep [x] = x"
| "join sep (x # y # ys) = x @ sep @ join sep (y # ys)"

definition string4 :: "8 word list \<Rightarrow> string" where
  "string4 bs = join ''.'' (map appendDecimal bs)"

text \<open>
  The longest run of at least two zero groups, the first among equals, as start and end
  index; \<open>(255, 255)\<close> when there is none.
\<close>

definition zeroRun :: "16 word list \<Rightarrow> nat \<times> nat" where
  "zeroRun gs =
     fold (\<lambda>i (zeroStart, zeroEnd).
             let j = i + length (takeWhile (\<lambda>g. g = 0) (drop i gs))
             in if j - i \<ge> 2 \<and> j - i > zeroEnd - zeroStart then (i, j) else (zeroStart, zeroEnd))
          [0..<8] (255, 255)"

definition string6 :: "16 word list \<Rightarrow> string \<Rightarrow> string" where
  "string6 gs zone =
     (let (zeroStart, zeroEnd) = zeroRun gs in
      (if zeroStart < 8
         then join '':'' (map appendHex (take zeroStart gs)) @ ''::'' @
              join '':'' (map appendHex (drop zeroEnd gs))
         else join '':'' (map appendHex gs)) @
      (if zone = [] then [] else ''%'' @ zone))"

fun Addr_String :: "Addr \<Rightarrow> string" where
  "Addr_String AddrZero = ''invalid IP''"
| "Addr_String (Addr4 a b c d) = string4 [a, b, c, d]"
| "Addr_String (Addr6 gs zone) =
     (if Is4In6 (Addr6 gs zone)
        then ''::ffff:'' @ string4 (As4 (Addr6 gs zone)) @ (if zone = [] then [] else ''%'' @ zone)
        else string6 gs zone)"

section \<open>The access gate (\<^verbatim>\<open>web.go\<close>)\<close>

text \<open>\<^verbatim>\<open>isLocalhost\<close>: the three loopback literals, compared as strings.\<close>

definition isLocalhost :: "string \<Rightarrow> bool" where
  "isLocalhost ip = (ip = ''127.0.0.1'' \<or> ip = ''::1'' \<or> ip = ''localhost'')"

text \<open>
  \<^verbatim>\<open>isTailscaleIP\<close>: for IPv4 the test of 100.64.0.0/10 on the first two bytes, for IPv6
  the textual prefix of fd7a:115c:a1e0::/48, false for the zero address.
\<close>

definition isTailscaleIP :: "Addr \<Rightarrow> bool" where
  "isTailscaleIP addr =
     (if Is4 addr then
        (let bytes = As4 addr in bytes ! 0 = 100 \<and> (bytes ! 1 AND 0xC0) = 64)
      else if Is6 addr then
        (let str = Addr_String addr in HasPrefix str ''fd7a:115c:a1e0:'')
      else False)"


text \<open>
  The peer roster. \<^verbatim>\<open>s.lb\<close> is a pointer that may be nil; a backend is represented by
  the status its \<^verbatim>\<open>StatusWithoutPeers\<close> returns for this request, whose \<^verbatim>\<open>Self\<close> may be
  nil as well.
\<close>

record PeerStatus =
  TailscaleIPs :: "Addr list"

record Status =
  Self :: "PeerStatus option"

record Server =
  listenAddr :: string
  lb :: "Status option"

record Request =
  Method :: string
  URL_Path :: string
  URL_Query :: "string \<rightharpoonup> string list"
  RemoteAddr :: string

record ResponseWriter =
  isFlusher :: bool

text \<open>
  What a handler does is the list of its effects, in order: log lines, calls on the
  response writer, calls of the collector and the start of the shutdown goroutine; the
  actuators add the sleep, the commands run and the system calls made. \<open>Redirect\<close> is the
  answer of \<^verbatim>\<open>http.RedirectHandler\<close>: the target path (to which the request's query is
  appended) and the status code.
\<close>

datatype event =
    Logf string "string list"
  | SetHeader string string
  | WriteHeader nat
  | Write string
  | Flush
  | Call_GetSystemMetrics
  | Go_ShutdownSystem bool
  | Redirect string nat
  | Sleep_ms nat
  | Run "string list"
  | Syscall string "nat list"

type_synonym handler = "ResponseWriter \<Rightarrow> Request \<Rightarrow> event list"

text \<open>
  The status line of a response: the first \<^verbatim>\<open>WriteHeader\<close>, or 200 when the body is
  written, flushed or the handler returns without one.
\<close>

fun status_of :: "event list \<Rightarrow> nat" where
  "status_of [] = 200"
| "status_of (WriteHeader code # es) = code"
| "status_of (Redirect url code # es) = code"
| "status_of (Write b # es) = 200"
| "status_of (Flush # es) = 200"
| "status_of (e # es) = status_of es"

fun body_of :: "event list \<Rightarrow> string" where
  "body_of [] = []"
| "body_of (Write b # es) = b @ body_of es"
| "body_of (e # es) = body_of es"

text \<open>\<^verbatim>\<open>http.Error\<close>: plain-text headers, the status code, the message and a newline.\<close>

definition http_Error :: "string \<Rightarrow> nat \<Rightarrow> event list" where
  "http_Error msg code =
     [SetHeader ''Content-Type'' ''text/plain; charset=utf-8'',
      SetHeader ''X-Content-Type-Options'' ''nosniff'',
      WriteHeader code,
      Write (msg @ ''\<newline>'')]"

text \<open>
  The closure returned by \<^verbatim>\<open>requireTailscale\<close>, up to its calls of \<^verbatim>\<open>next\<close>: either it
  hands the request to the wrapped handler (\<open>Next\<close>) or it answers itself.
\<close>

datatype verdict = Next | Respond "event list"

text \<open>The client address: the remote address without its port, if it has one.\<close>

definition clientIP :: "Request \<Rightarrow> string" where
  "clientIP r =
     (case SplitHostPort (RemoteAddr r) of
        Inr (host, port) \<Rightarrow> host
      | Inl err \<Rightarrow> RemoteAddr r)"

text \<open>
  The roster check: with a backend whose status has a \<^verbatim>\<open>Self\<close>, the loop over the node's own
  addresses that looks for one equal to the client's.
\<close>

definition isSelfAddr :: "Server \<Rightarrow> Addr \<Rightarrow> bool" where
  "isSelfAddr s a =
     (case lb s of
        None \<Rightarrow> False
      | Some status \<Rightarrow>
          (case Self status of
             None \<Rightarrow> False
           | Some self \<Rightarrow> list_ex (\<lambda>ip. ip = a) (TailscaleIPs self)))"

definition accessGate :: "Server \<Rightarrow> Request \<Rightarrow> verdict" where
  "accessGate s r =
     (let ip = clientIP r
      in if isLocalhost ip then Next
         else
           (case ParseAddr ip of
              Inl err \<Rightarrow>
                Respond (Logf ''Invalid client IP %s: %v'' [ip, err] #
                         http_Error ''Forbidden'' 403)
            | Inr a \<Rightarrow>
                if isTailscaleIP a then Next
                else if isSelfAddr s a then Next
                else
                  Respond (Logf ''Blocked request from non-Tailscale IP: %s'' [ip] #
                           http_Error ''Forbidden: Only accessible from Tailscale network'' 403)))"

definition requireTailscale :: "Server \<Rightarrow> handler \<Rightarrow> handler" where
  "requireTailscale s next w r =
     (case accessGate s r of Next \<Rightarrow> next w r | Respond es \<Rightarrow> es)"

section \<open>Metrics values (\<^verbatim>\<open>metrics.go\<close>)\<close>

text \<open>
  A \<^verbatim>\<open>float64\<close> is modelled by the real number it stands for, or by \<open>NonFinite\<close> for an
  infinity or a NaN. Every operation rounds its exact result to the nearest value with
  a significand of 53 bits, ties to even, as IEEE 754 binary64 does: \<open>roundFloat64\<close>
  scales by the power of two of the exponent (not below that of the subnormal numbers),
  rounds to an integer and scales back; a result of 2^1024 or more is an infinity.
\<close>

datatype float64 = Finite real | NonFinite

definition round_even :: "real \<Rightarrow> int" where
  "round_even m =
     (if m - of_int \<lfloor>m\<rfloor> < 1 / 2 then \<lfloor>m\<rfloor>
      else if m - of_int \<lfloor>m\<rfloor> > 1 / 2 then \<lfloor>m\<rfloor> + 1
      else if even \<lfloor>m\<rfloor> then \<lfloor>m\<rfloor> else \<lfloor>m\<rfloor> + 1)"

definition float64_exponent :: "real \<Rightarrow> int" where
  "float64_exponent x = max \<lfloor>log 2 \<bar>x\<bar>\<rfloor> (- 1022)"

definition roundFloat64 :: "real \<Rightarrow> real" where
  "roundFloat64 x =
     (if x = 0 then 0
      else sgn x * of_int (round_even (\<bar>x\<bar> / 2 powr of_int (float64_exponent x - 52))) *
           2 powr of_int (float64_exponent x - 52))"

definition mkFloat64 :: "real \<Rightarrow> float64" where
  "mkFloat64 x = (if \<bar>roundFloat64 x\<bar> \<ge> 2 ^ 1024 then NonFinite else Finite (roundFloat64 x))"

definition float64_of_uint64 :: "64 word \<Rightarrow> float64" where
  "float64_of_uint64 x = mkFloat64 (real (unat x))"

fun fdiv :: "float64 \<Rightarrow> float64 \<Rightarrow> float64" where
  "fdiv (Finite x) (Finite y) = (if y = 0 then NonFinite else mkFloat64 (x / y))"
| "fdiv _ _ = NonFinite"

fun fmul :: "float64 \<Rightarrow> float64 \<Rightarrow> float64" where
  "fmul (Finite x) (Finite y) = mkFloat64 (x * y)"
| "fmul _ _ = NonFinite"

record SystemMetrics =
  CPUPercent :: float64
  MemoryUsed :: "64 word"
  MemoryTotal :: "64 word"
  MemoryPercent :: float64
  DiskUsed :: "64 word"
  DiskTotal :: "64 word"
  DiskPercent :: float64
  NetworkBytesSent :: "64 word"
  NetworkBytesRecv :: "64 word"
  UptimeSeconds :: "64 word"

text \<open>The zero value \<^verbatim>\<open>&SystemMetrics{}\<close>.\<close>

definition SystemMetrics_zero :: SystemMetrics where
  "SystemMetrics_zero =
     \<lparr>CPUPercent = Finite 0, MemoryUsed = 0, MemoryTotal = 0, MemoryPercent = Finite 0,
      DiskUsed = 0, DiskTotal = 0, DiskPercent = Finite 0,
      NetworkBytesSent = 0, NetworkBytesRecv = 0, UptimeSeconds = 0\<rparr>"

section \<open>The route handlers (\<^verbatim>\<open>web.go\<close>)\<close>

text \<open>
  What the handlers read from outside the program: the result of \<^verbatim>\<open>os.Hostname\<close>, the
  result of \<^verbatim>\<open>GetSystemMetrics\<close> (the collector of the platform the program was built
  for), and how \<^verbatim>\<open>fmt\<close> prints a float with \<^verbatim>\<open>%.2f\<close> and an unsigned integer with \<^verbatim>\<open>%d\<close>.
\<close>

record Env =
  os_Hostname :: "error + string"
  GetSystemMetrics :: "error + SystemMetrics"
  fmt_2f :: "float64 \<Rightarrow> string"
  fmt_d :: "64 word \<Rightarrow> string"

definition handleRoot :: "Env \<Rightarrow> Server \<Rightarrow> handler" where
  "handleRoot env s w r =
     (if Method r \<noteq> ''GET'' then http_Error ''Method not allowed'' 405
      else
        (case os_Hostname env of
           Inl err \<Rightarrow>
             [Logf ''Failed to get hostname: %v'' [err],
              SetHeader ''Content-Type'' ''text/plain'',
              Write (''hostname: '' @ ''unknown'' @ ''\<newline>'')]
         | Inr hostname \<Rightarrow>
             [SetHeader ''Content-Type'' ''text/plain'',
              Write (''hostname: '' @ hostname @ ''\<newline>'')]))"

text \<open>The three lines that \<^verbatim>\<open>handleMetrics\<close> prints for one metric.\<close>

definition metricLines :: "string \<Rightarrow> string \<Rightarrow> string \<Rightarrow> string \<Rightarrow> string \<Rightarrow> event list" where
  "metricLines name help kind val sep =
     [Write (''# HELP '' @ name @ '' '' @ help @ ''\<newline>''),
      Write (''# TYPE '' @ name @ '' '' @ kind @ ''\<newline>''),
      Write (name @ '' '' @ val @ sep)]"

definition handleMetrics :: "Env \<Rightarrow> Server \<Rightarrow> handler" where
  "handleMetrics env s w r =
     (if Method r \<noteq> ''GET'' then http_Error ''Method not allowed'' 405
      else
        Call_GetSystemMetrics #
        (case GetSystemMetrics env of
           Inl err \<Rightarrow>
             Logf ''Failed to get metrics: %v'' [err] #
             http_Error (''Failed to get metrics: '' @ err) 500
         | Inr metrics \<Rightarrow>
             SetHeader ''Content-Type'' ''text/plain; version=0.0.4'' #
             metricLines ''system_cpu_usage_percent'' ''CPU usage percentage'' ''gauge''
               (fmt_2f env (CPUPercent metrics)) ''\<newline>\<newline>'' @
             metricLines ''system_memory_used_bytes'' ''Memory used in bytes'' ''gauge''
               (fmt_d env (MemoryUsed metrics)) ''\<newline>\<newline>'' @
             metricLines ''system_memory_total_bytes'' ''Total memory in bytes'' ''gauge''
               (fmt_d env (MemoryTotal metrics)) ''\<newline>\<newline>'' @
             metricLines ''system_memory_usage_percent'' ''Memory usage percentage'' ''gauge''
               (fmt_2f env (MemoryPercent metrics)) ''\<newline>\<newline>'' @
             metricLines ''system_disk_used_bytes'' ''Disk used in bytes'' ''gauge''
               (fmt_d env (DiskUsed metrics)) ''\<newline>\<newline>'' @
             metricLines ''system_disk_total_bytes'' ''Total disk space in bytes'' ''gauge''
               (fmt_d env (DiskTotal metrics)) ''\<newline>\<newline>'' @
             metricLines ''system_disk_usage_percent'' ''Disk usage percentage'' ''gauge''
               (fmt_2f env (DiskPercent metrics)) ''\<newline>\<newline>'' @
             metricLines ''system_network_bytes_sent'' ''Network bytes sent'' ''counter''
               (fmt_d env (NetworkBytesSent metrics)) ''\<newline>\<newline>'' @
             metricLines ''system_network_bytes_recv'' ''Network bytes received'' ''counter''
               (fmt_d env (NetworkBytesRecv metrics)) ''\<newline>\<newline>'' @
             metricLines ''system_uptime_seconds'' ''System uptime in seconds'' ''counter''
               (fmt_d env (UptimeSeconds metrics)) ''\<newline>''))"

text \<open>\<^verbatim>\<open>url.Values.Get\<close>: the first value of the key, or the empty string.\<close>

definition Values_Get :: "(string \<rightharpoonup> string list) \<Rightarrow> string \<Rightarrow> string" where
  "Values_Get v key = (case v key of None \<Rightarrow> [] | Some [] \<Rightarrow> [] | Some (x # xs) \<Rightarrow> x)"

definition handleShutdown :: "Server \<Rightarrow> handler" where
  "handleShutdown s w r =
     (if Method r \<noteq> ''POST'' then http_Error ''Method not allowed (use POST)'' 405
      else
        (let force = (Values_Get (URL_Query r) ''force'' = ''true'');
             shutdownType = (if force then ''forced'' else ''graceful'')
         in [Logf ''Shutdown requested via web API (%s)'' [shutdownType],
             SetHeader ''Content-Type'' ''text/plain'',
             Write (''Shutdown initiated ('' @ shutdownType @ '')...'' @ ''\<newline>'')] @
            (if isFlusher w then [Flush] else []) @
            [Go_ShutdownSystem force]))"

text \<open>
  The routes that \<^verbatim>\<open>Start\<close> registers on its mux: the patterns \<^verbatim>\<open>/\<close>, \<^verbatim>\<open>/metrics\<close> and
  \<^verbatim>\<open>/shutdown\<close>, each handler wrapped by the gate. A pattern without a trailing slash
  matches that path only; \<^verbatim>\<open>/\<close> matches every other path that starts with a slash.
  \<open>Start\<close> is the choice of the route for a path that the mux matches against its
  patterns; what the mux does before that is \<open>ServeHTTP\<close> below.
\<close>

definition Start :: "Env \<Rightarrow> Server \<Rightarrow> handler" where
  "Start env s w r =
     (if URL_Path r = ''/metrics'' then requireTailscale s (handleMetrics env s) w r
      else if URL_Path r = ''/shutdown'' then requireTailscale s (handleShutdown s) w r
      else requireTailscale s (handleRoot env s) w r)"

subsection \<open>The mux of \<^verbatim>\<open>net/http\<close>\<close>

text \<open>
  \<^verbatim>\<open>path.Clean\<close> on a path that starts with a slash: empty elements and \<^verbatim>\<open>.\<close> are dropped,
  \<^verbatim>\<open>..\<close> drops the element before it (none at the root), and the rest is joined again
  behind a slash.
\<close>

fun splitOn :: "char \<Rightarrow> string \<Rightarrow> string list" where
  "splitOn c [] = [[]]"
| "splitOn c (x # xs) =
     (if x = c then [] # splitOn c xs
      else (case splitOn c xs of [] \<Rightarrow> [[x]] | e # es \<Rightarrow> (x # e) # es))"

fun cleanElems :: "string list \<Rightarrow> string list \<Rightarrow> string list" where
  "cleanElems acc [] = acc"
| "cleanElems acc (e # es) =
     (if e = [] \<or> e = ''.'' then cleanElems acc es
      else if e = ''..'' then cleanElems (butlast acc) es
      else cleanElems (acc @ [e]) es)"

definition path_Clean :: "string \<Rightarrow> string" where
  "path_Clean p = ''/'' @ join ''/'' (cleanElems [] (splitOn (CHR ''/'') p))"

text \<open>
  \<^verbatim>\<open>cleanPath\<close> of \<^verbatim>\<open>net/http\<close>: the canonical form of a request path, with a leading slash
  and with the trailing slash of the request kept.
\<close>

definition cleanPath :: "string \<Rightarrow> string" where
  "cleanPath p =
     (if p = [] then ''/''
      else
        (let p' = (if hd p \<noteq> CHR ''/'' then CHR ''/'' # p else p);
             np = path_Clean p'
         in if last p' = CHR ''/'' \<and> np \<noteq> ''/'' then np @ ''/'' else np))"

text \<open>
  \<^verbatim>\<open>ServeMux.ServeHTTP\<close> with the patterns of \<^verbatim>\<open>Start\<close>. The request \<^verbatim>\<open>*\<close> (whose path is
  \<^verbatim>\<open>*\<close>) is answered with 400. A CONNECT request is matched as it is, and finds no
  pattern when its path is none of the two exact ones and does not start with a slash.
  Any other request whose path is not in canonical form is redirected to the canonical
  path with 301, before any route is chosen. Only then the route is taken.
\<close>

definition ServeHTTP :: "Env \<Rightarrow> Server \<Rightarrow> handler" where
  "ServeHTTP env s w r =
     (if URL_Path r = ''*'' then [SetHeader ''Connection'' ''close'', WriteHeader 400]
      else if Method r = ''CONNECT'' then
        (if URL_Path r = ''/metrics'' \<or> URL_Path r = ''/shutdown'' \<or>
            HasPrefix (URL_Path r) ''/''
           then Start env s w r
         else http_Error ''404 page not found'' 404)
      else if cleanPath (URL_Path r) \<noteq> URL_Path r
        then [Redirect (cleanPath (URL_Path r)) 301]
      else Start env s w r)"

section \<open>The CPU sampler on Linux (\<^verbatim>\<open>metrics_linux.go\<close>)\<close>

text \<open>
  \<^verbatim>\<open>strings.Fields\<close> on ASCII text: the maximal runs of bytes that are not white space.
\<close>

definition isSpace :: "char \<Rightarrow> bool" where
  "isSpace c = (c \<in> set [CHR 0x09, CHR 0x0A, CHR 0x0B, CHR 0x0C, CHR 0x0D, CHR '' ''])"

fun Fields_from :: "string \<Rightarrow> string \<Rightarrow> string list" where
  "Fields_from cur [] = (if cur = [] then [] else [cur])"
| "Fields_from cur (c # cs) =
     (if isSpace c then (if cur = [] then Fields_from [] cs else cur # Fields_from [] cs)
      else Fields_from (cur @ [c]) cs)"

definition Fields :: "string \<Rightarrow> string list" where
  "Fields s = Fields_from [] s"

text \<open>
  \<^verbatim>\<open>strconv.ParseUint(s, 10, 64)\<close>: the value and no error; 0 and a syntax error for an
  empty string or a byte that is not a digit; the largest value and a range error when
  the number does not fit.
\<close>

definition ParseUint :: "string \<Rightarrow> 64 word \<times> error option" where
  "ParseUint s =
     (if s = [] \<or> \<not> list_all isDigit s then (0, Some ''invalid syntax'')
      else
        (let n = foldl (\<lambda>acc c. acc * 10 + digitVal c) 0 s
         in if n \<ge> 2 ^ 64 then (- 1, Some ''value out of range'') else (of_nat n, None)))"

record cpuStats =
  user :: "64 word"
  nice :: "64 word"
  system :: "64 word"
  idle :: "64 word"
  iowait :: "64 word"
  irq :: "64 word"
  total :: "64 word"
  time :: nat

text \<open>The zero value of \<^verbatim>\<open>lastCPUStats\<close> at process start.\<close>

definition cpuStats_zero :: cpuStats where
  "cpuStats_zero =
     \<lparr>user = 0, nice = 0, system = 0, idle = 0, iowait = 0, irq = 0, total = 0, time = 0\<rparr>"

text \<open>What opening \<^verbatim>\<open>/proc/stat\<close> and scanning its first line gives.\<close>

datatype proc_stat = OpenFailed error | ScanFailed | FirstLine string

text \<open>
  The first part of \<^verbatim>\<open>getCPUUsage\<close>: the counters of the first line, with parse errors
  ignored as the code ignores them, their sum and the time of the sample.
\<close>

definition readCPUStats :: "proc_stat \<Rightarrow> nat \<Rightarrow> error + cpuStats" where
  "readCPUStats file now =
     (case file of
        OpenFailed err \<Rightarrow> Inl err
      | ScanFailed \<Rightarrow> Inl ''failed to read /proc/stat''
      | FirstLine line \<Rightarrow>
          if \<not> HasPrefix line ''cpu '' then Inl ''unexpected /proc/stat format''
          else if length (Fields line) < 8 then Inl ''insufficient fields in /proc/stat''
          else
            (let fields = Fields line;
                 u = fst (ParseUint (fields ! 1));
                 n = fst (ParseUint (fields ! 2));
                 sy = fst (ParseUint (fields ! 3));
                 i = fst (ParseUint (fields ! 4));
                 w = fst (ParseUint (fields ! 5));
                 q = fst (ParseUint (fields ! 6))
             in Inr \<lparr>user = u, nice = n, system = sy, idle = i, iowait = w, irq = q,
                     total = u + n + sy + i + w + q, time = now\<rparr>))"

text \<open>
  \<^verbatim>\<open>getCPUUsage\<close> on Linux, with the global \<^verbatim>\<open>lastCPUStats\<close> passed in and returned. The
  result is the pair of the percentage and the error.
\<close>

definition getCPUUsage_linux ::
  "proc_stat \<Rightarrow> nat \<Rightarrow> cpuStats \<Rightarrow> (float64 \<times> error option) \<times> cpuStats" where
  "getCPUUsage_linux file now lastCPUStats =
     (case readCPUStats file now of
        Inl err \<Rightarrow> ((Finite 0, Some err), lastCPUStats)
      | Inr stats \<Rightarrow>
          if total lastCPUStats > 0 then
            (let totalDelta = total stats - total lastCPUStats;
                 idleDelta = idle stats - idle lastCPUStats
             in if totalDelta > 0 then
                  ((fmul (fdiv (float64_of_uint64 (totalDelta - idleDelta))
                               (float64_of_uint64 totalDelta)) (Finite 100), None), stats)
                else ((Finite 0, None), stats))
          else ((Finite 0, None), stats))"

section \<open>The collector on Windows (\<^verbatim>\<open>metrics_windows.go\<close>)\<close>

record Filetime =
  LowDateTime :: "32 word"
  HighDateTime :: "32 word"

definition fileTimeToUint64 :: "Filetime \<Rightarrow> 64 word" where
  "fileTimeToUint64 ft = push_bit 32 (ucast (HighDateTime ft)) OR ucast (LowDateTime ft)"

text \<open>
  \<^verbatim>\<open>cpuTimes\<close>; its fields \<^verbatim>\<open>idle\<close>, \<^verbatim>\<open>kernel\<close>, \<^verbatim>\<open>user\<close> and \<^verbatim>\<open>time\<close> carry the prefix \<open>w_\<close>
  here, to keep them apart from those of \<^verbatim>\<open>cpuStats\<close>.
\<close>

record cpuTimes =
  w_idle :: "64 word"
  w_kernel :: "64 word"
  w_user :: "64 word"
  w_time :: nat

definition cpuTimes_zero :: cpuTimes where
  "cpuTimes_zero = \<lparr>w_idle = 0, w_kernel = 0, w_user = 0, w_time = 0\<rparr>"

text \<open>
  What the system calls of one collection return: the return value and the error of
  each call together with what it stores through its pointers, and the clock. The zero
  time is the zero \<^verbatim>\<open>time.Time\<close>, which \<^verbatim>\<open>time.Now\<close> never returns.
\<close>

record WinCalls =
  GetSystemTimes :: "64 word \<times> error \<times> Filetime \<times> Filetime \<times> Filetime"
  time_Now :: nat
  GlobalMemoryStatusEx :: "64 word \<times> error \<times> 64 word \<times> 64 word"
  GetDiskFreeSpaceExW :: "64 word \<times> error \<times> 64 word \<times> 64 word \<times> 64 word"
  GetTickCount64 :: "64 word"

definition getCPUUsage_windows ::
  "WinCalls \<Rightarrow> cpuTimes \<Rightarrow> (float64 \<times> error option) \<times> cpuTimes" where
  "getCPUUsage_windows sys lastCPUTimes =
     (case GetSystemTimes sys of (ret, err, idleTime, kernelTime, userTime) \<Rightarrow>
        if ret = 0 then ((Finite 0, Some err), lastCPUTimes)
        else
          (let idle = fileTimeToUint64 idleTime;
               kernel = fileTimeToUint64 kernelTime;
               user = fileTimeToUint64 userTime;
               now = time_Now sys;
               sample = \<lparr>w_idle = idle, w_kernel = kernel, w_user = user, w_time = now\<rparr>
           in if w_time lastCPUTimes = 0 then ((Finite 0, None), sample)
              else
                (let idleDelta = idle - w_idle lastCPUTimes;
                     kernelDelta = kernel - w_kernel lastCPUTimes;
                     userDelta = user - w_user lastCPUTimes;
                     totalDelta = kernelDelta + userDelta;
                     usage = (if totalDelta > 0
                              then fmul (fdiv (float64_of_uint64 (totalDelta - idleDelta))
                                              (float64_of_uint64 totalDelta)) (Finite 100)
                              else Finite 0)
                 in ((usage, None), sample))))"

text \<open>\<^verbatim>\<open>getMemoryUsage\<close>: the call stores the total and the available physical memory.\<close>

definition getMemoryUsage_windows :: "WinCalls \<Rightarrow> 64 word \<times> 64 word \<times> error option" where
  "getMemoryUsage_windows sys =
     (case GlobalMemoryStatusEx sys of (ret, err, ullTotalPhys, ullAvailPhys) \<Rightarrow>
        if ret = 0 then (0, 0, Some err)
        else (ullTotalPhys - ullAvailPhys, ullTotalPhys, None))"

definition getDiskUsage_windows :: "WinCalls \<Rightarrow> 64 word \<times> 64 word \<times> error option" where
  "getDiskUsage_windows sys =
     (case GetDiskFreeSpaceExW sys of
        (ret, err, freeBytesAvailable, totalBytes, totalFreeBytes) \<Rightarrow>
          if ret = 0 then (0, 0, Some err)
          else (totalBytes - totalFreeBytes, totalBytes, None))"

definition getUptime_windows :: "WinCalls \<Rightarrow> 64 word \<times> error option" where
  "getUptime_windows sys =
     (if GetTickCount64 sys = 0 then (0, Some ''failed to get tick count'')
      else (GetTickCount64 sys div 1000, None))"

text \<open>The percentage \<^verbatim>\<open>float64(used) / float64(total) * 100\<close>.\<close>

definition percentOf :: "64 word \<Rightarrow> 64 word \<Rightarrow> float64" where
  "percentOf used total' =
     fmul (fdiv (float64_of_uint64 used) (float64_of_uint64 total')) (Finite 100)"

definition getSystemMetrics_windows ::
  "WinCalls \<Rightarrow> cpuTimes \<Rightarrow> (SystemMetrics \<times> error option) \<times> cpuTimes" where
  "getSystemMetrics_windows sys lastCPUTimes =
     (let cpuResult = getCPUUsage_windows sys lastCPUTimes;
          m0 = SystemMetrics_zero;
          m1 = (case fst cpuResult of
                  (cpu, None) \<Rightarrow> m0\<lparr>CPUPercent := cpu\<rparr>
                | (cpu, Some err) \<Rightarrow> m0);
          m2 = (case getMemoryUsage_windows sys of
                  (memUsed, memTotal, None) \<Rightarrow>
                    (if memTotal > 0
                     then m1\<lparr>MemoryUsed := memUsed, MemoryTotal := memTotal,
                             MemoryPercent := percentOf memUsed memTotal\<rparr>
                     else m1\<lparr>MemoryUsed := memUsed, MemoryTotal := memTotal\<rparr>)
                | (memUsed, memTotal, Some err) \<Rightarrow> m1);
          m3 = (case getDiskUsage_windows sys of
                  (diskUsed, diskTotal, None) \<Rightarrow>
                    (if diskTotal > 0
                     then m2\<lparr>DiskUsed := diskUsed, DiskTotal := diskTotal,
                             DiskPercent := percentOf diskUsed diskTotal\<rparr>
                     else m2\<lparr>DiskUsed := diskUsed, DiskTotal := diskTotal\<rparr>)
                | (diskUsed, diskTotal, Some err) \<Rightarrow> m2);
          m4 = m3\<lparr>NetworkBytesSent := 0, NetworkBytesRecv := 0\<rparr>;
          m5 = (case getUptime_windows sys of
                  (uptime, None) \<Rightarrow> m4\<lparr>UptimeSeconds := uptime\<rparr>
                | (uptime, Some err) \<Rightarrow> m4)
      in ((m5, None), snd cpuResult))"

section \<open>The shutdown actuators (\<^verbatim>\<open>shutdown_*.go\<close>)\<close>

text \<open>
  On Linux and macOS the actuator runs commands; \<open>run\<close> gives the error of
  \<^verbatim>\<open>cmd.Run()\<close> for an argument vector, \<open>None\<close> for nil. The result is the list of effects
  and the error returned.
\<close>

definition shutdownSystem_linux ::
  "(string list \<Rightarrow> error option) \<Rightarrow> bool \<Rightarrow> event list \<times> error option" where
  "shutdownSystem_linux run force =
     (if force then
        (case run [''systemctl'', ''poweroff'', ''-i'', ''--force''] of
           Some err \<Rightarrow>
             ([Sleep_ms 100, Run [''systemctl'', ''poweroff'', ''-i'', ''--force''],
               Run [''shutdown'', ''-h'', ''now'']],
              run [''shutdown'', ''-h'', ''now''])
         | None \<Rightarrow> ([Sleep_ms 100, Run [''systemctl'', ''poweroff'', ''-i'', ''--force'']], None))
      else
        (case run [''shutdown'', ''-h'', ''+1''] of
           Some err \<Rightarrow>
             ([Sleep_ms 100, Run [''shutdown'', ''-h'', ''+1''], Run [''systemctl'', ''poweroff'']],
              run [''systemctl'', ''poweroff''])
         | None \<Rightarrow> ([Sleep_ms 100, Run [''shutdown'', ''-h'', ''+1'']], None)))"

definition shutdownSystem_darwin ::
  "(string list \<Rightarrow> error option) \<Rightarrow> bool \<Rightarrow> event list \<times> error option" where
  "shutdownSystem_darwin run force =
     (if force then
        ([Sleep_ms 100, Run [''sudo'', ''shutdown'', ''-h'', ''now'']],
         run [''sudo'', ''shutdown'', ''-h'', ''now''])
      else
        ([Sleep_ms 100, Run [''sudo'', ''shutdown'', ''-h'', ''+1'']],
         run [''sudo'', ''shutdown'', ''-h'', ''+1'']))"

text \<open>
  On Windows the actuator makes four system calls, each giving a return value and an
  error; \<^verbatim>\<open>ExitWindowsEx\<close> is given the flags. \<^verbatim>\<open>UTF16PtrFromString\<close> of the constant
  privilege name does not fail. The variant built on \<^verbatim>\<open>golang.org/x/sys/windows\<close> first
  asks for the process handle, which may fail.
\<close>

record WinShutdownCalls =
  GetCurrentProcess :: "error option"
  OpenProcessToken :: "64 word \<times> error"
  LookupPrivilegeValue :: "64 word \<times> error"
  AdjustTokenPrivileges :: "64 word \<times> error"
  ExitWindowsEx :: "nat \<Rightarrow> 64 word \<times> error"

definition EWX_POWEROFF :: nat where
  "EWX_POWEROFF = 0x00000008"

definition EWX_FORCE :: nat where
  "EWX_FORCE = 0x00000004"

definition shutdownSystem_windows ::
  "WinShutdownCalls \<Rightarrow> bool \<Rightarrow> event list \<times> error option" where
  "shutdownSystem_windows sys force =
     (if fst (OpenProcessToken sys) = 0
        then ([Sleep_ms 100, Syscall ''OpenProcessToken'' []], Some (snd (OpenProcessToken sys)))
      else if fst (LookupPrivilegeValue sys) = 0
        then ([Sleep_ms 100, Syscall ''OpenProcessToken'' [], Syscall ''LookupPrivilegeValueW'' [],
               Syscall ''CloseHandle'' []],
              Some (snd (LookupPrivilegeValue sys)))
      else if fst (AdjustTokenPrivileges sys) = 0
        then ([Sleep_ms 100, Syscall ''OpenProcessToken'' [], Syscall ''LookupPrivilegeValueW'' [],
               Syscall ''AdjustTokenPrivileges'' [], Syscall ''CloseHandle'' []],
              Some (snd (AdjustTokenPrivileges sys)))
      else
        (let flags = (if force then or EWX_POWEROFF EWX_FORCE else EWX_POWEROFF)
         in ([Sleep_ms 100, Syscall ''OpenProcessToken'' [], Syscall ''LookupPrivilegeValueW'' [],
              Syscall ''AdjustTokenPrivileges'' [], Syscall ''ExitWindowsEx'' [flags, 0],
              Syscall ''CloseHandle'' []],
             if fst (ExitWindowsEx sys flags) = 0 then Some (snd (ExitWindowsEx sys flags))
             else None)))"

definition shutdownSystem_windows_xsys ::
  "WinShutdownCalls \<Rightarrow> bool \<Rightarrow> event list \<times> error option" where
  "shutdownSystem_windows_xsys sys force =
     (case GetCurrentProcess sys of
        Some err \<Rightarrow> ([Sleep_ms 100], Some err)
      | None \<Rightarrow> shutdownSystem_windows sys force)"

text \<open>
  \<^verbatim>\<open>ShutdownSystem\<close> (\<^verbatim>\<open>shutdown.go\<close>) calls the \<^verbatim>\<open>shutdownSystem\<close> of the platform the
  program was built for.
\<close>

datatype platform =
    Linux "string list \<Rightarrow> error option"
  | Darwin "string list \<Rightarrow> error option"
  | Windows WinShutdownCalls
  | Windows_xsys WinShutdownCalls

fun ShutdownSystem :: "platform \<Rightarrow> bool \<Rightarrow> event list \<times> error option" where
  "ShutdownSystem (Linux run) force = shutdownSystem_linux run force"
| "ShutdownSystem (Darwin run) force = shutdownSystem_darwin run force"
| "ShutdownSystem (Windows sys) force = shutdownSystem_windows sys force"
| "ShutdownSystem (Windows_xsys sys) force = shutdownSystem_windows_xsys sys force"

section \<open>Evaluation of the library functions\<close>

lemma replicate_numeral: "replicate (numeral k) x = x # replicate (pred_numeral k) x"
  by (simp add: numeral_eq_Suc)

lemmas parse_eval = ParseAddr_def parseIPv4_def parseIPv6_def HasPrefix_def isDigit_def
  digitVal_def isHex_def hexVal_def hexGroup_def replicate_numeral

lemmas split_eval = clientIP_def SplitHostPort_def LastIndexByte_def

lemma ParseAddr_localhost: "ParseAddr ''localhost'' = Inl ''unable to parse IP''"
  by (simp add: parse_eval)

lemma ParseAddr_loopback4: "ParseAddr ''127.0.0.1'' = Inr (Addr4 127 0 0 1)"
  by (simp add: parse_eval)

lemma ParseAddr_loopback6: "ParseAddr ''::1'' = Inr (Addr6 [0, 0, 0, 0, 0, 0, 0, 1] [])"
  by (simp add: parse_eval)

section \<open>Rounding to \<^verbatim>\<open>float64\<close>\<close>

lemma round_even_bounds: "real_of_int (round_even m) \<le> m + 1 / 2 \<and> m - 1 / 2 \<le> real_of_int (round_even m)"
  unfolding round_even_def by (auto; linarith)

lemma round_even_of_int [simp]: "round_even (of_int k) = k"
  by (simp add: round_even_def)

lemma round_even_mono_lower: "of_int k \<le> m \<Longrightarrow> k \<le> round_even m"
proof -
  assume h: "of_int k \<le> m"
  then have "k \<le> \<lfloor>m\<rfloor>" by (simp add: le_floor_iff)
  then show ?thesis unfolding round_even_def by auto
qed

lemma round_even_mono_upper: "m \<le> of_int k \<Longrightarrow> round_even m \<le> k"
proof -
  assume h: "m \<le> of_int k"
  have fl: "\<lfloor>m\<rfloor> \<le> k" using floor_mono [OF h] by simp
  show ?thesis
  proof (cases "\<lfloor>m\<rfloor> = k")
    case True
    then have "of_int k \<le> m" using of_int_floor_le [of m] by simp
    then have "m = of_int k" using h by simp
    then show ?thesis by simp
  next
    case False
    then have "\<lfloor>m\<rfloor> + 1 \<le> k" using fl by simp
    then show ?thesis unfolding round_even_def by auto
  qed
qed

lemma float64_exponent_pos:
  assumes "0 < x"
  shows "float64_exponent x = max \<lfloor>log 2 x\<rfloor> (- 1022)"
  using assms by (simp add: float64_exponent_def)

lemma roundFloat64_pos:
  assumes "0 < x"
  shows "roundFloat64 x =
    of_int (round_even (x / 2 powr of_int (float64_exponent x - 52))) *
    2 powr of_int (float64_exponent x - 52)"
  using assms by (simp add: roundFloat64_def)

lemma roundFloat64_nonneg: "0 \<le> x \<Longrightarrow> 0 \<le> roundFloat64 x"
proof (cases "x = 0")
  case True
  then show ?thesis by (simp add: roundFloat64_def)
next
  case False
  assume "0 \<le> x"
  with False have p: "0 < x" by simp
  have "0 \<le> x / 2 powr of_int (float64_exponent x - 52)" using p by simp
  then have "(0::int) \<le> round_even (x / 2 powr of_int (float64_exponent x - 52))"
    by (intro round_even_mono_lower) simp
  then show ?thesis unfolding roundFloat64_pos [OF p] by simp
qed

text \<open>In the normal range the scaled value lies between 2^52 and 2^53.\<close>

lemma scaled_range:
  assumes "0 < x" and "2 powr (- 1022) \<le> x"
  shows "float64_exponent x = \<lfloor>log 2 x\<rfloor>"
    and "2 ^ 52 \<le> x / 2 powr of_int (float64_exponent x - 52)"
    and "x / 2 powr of_int (float64_exponent x - 52) < 2 ^ 53"
proof -
  have "log 2 (2 powr (- 1022)) \<le> log 2 x"
    using assms by (intro log_mono) auto
  then have "- 1022 \<le> log 2 x" by simp
  then have "- 1022 \<le> \<lfloor>log 2 x\<rfloor>" by (simp add: le_floor_iff)
  then show e: "float64_exponent x = \<lfloor>log 2 x\<rfloor>"
    using assms(1) by (simp add: float64_exponent_pos)
  have b: "2 powr of_int \<lfloor>log 2 x\<rfloor> \<le> x \<and> x < 2 powr of_int (\<lfloor>log 2 x\<rfloor> + 1)"
    using floor_log_eq_powr_iff [of x 2 "\<lfloor>log 2 x\<rfloor>"] assms(1) by simp
  have d: "(2::real) powr of_int (\<lfloor>log 2 x\<rfloor> - 52) = 2 powr of_int \<lfloor>log 2 x\<rfloor> / 2 ^ 52"
    by (simp add: powr_diff)
  have d2: "(2::real) powr of_int (\<lfloor>log 2 x\<rfloor> + 1) = 2 powr of_int \<lfloor>log 2 x\<rfloor> * 2"
    by (simp add: powr_add)
  have pos: "(0::real) < 2 powr of_int \<lfloor>log 2 x\<rfloor>" by simp
  show "2 ^ 52 \<le> x / 2 powr of_int (float64_exponent x - 52)"
    unfolding e d using b pos by (simp add: field_simps)
  show "x / 2 powr of_int (float64_exponent x - 52) < 2 ^ 53"
    unfolding e d using b pos d2 by (simp add: field_simps)
qed

lemma roundFloat64_error:
  assumes "0 < x" and "2 powr (- 1022) \<le> x"
  shows "\<bar>roundFloat64 x - x\<bar> \<le> x / 2 ^ 53"
proof -
  define u :: real where "u = 2 powr of_int (float64_exponent x - 52)"
  define m where "m = x / u"
  have up: "0 < u" by (simp add: u_def)
  have xm: "x = m * u" using up by (simp add: m_def)
  have m52: "2 ^ 52 \<le> m" using scaled_range(2) [OF assms] by (simp add: m_def u_def)
  have r: "roundFloat64 x = of_int (round_even m) * u"
    using roundFloat64_pos [OF assms(1)] by (simp add: m_def u_def)
  have "\<bar>of_int (round_even m) - m\<bar> \<le> 1 / 2"
    using round_even_bounds [of m] by linarith
  then have "\<bar>of_int (round_even m) * u - m * u\<bar> \<le> u / 2"
    using up by (simp add: left_diff_distrib [symmetric] abs_mult)
  moreover have "u / 2 \<le> x / 2 ^ 53"
  proof -
    have "u * 2 ^ 52 \<le> u * m" using m52 up by simp
    then show ?thesis unfolding xm by (simp add: mult.commute)
  qed
  ultimately show ?thesis unfolding r using xm by simp
qed

lemma roundFloat64_ge_1:
  assumes "1 \<le> x"
  shows "1 \<le> roundFloat64 x"
proof -
  have p: "0 < x" using assms by simp
  have n: "2 powr (- 1022) \<le> x"
    using assms powr_mono [of "- 1022" 0 2] by (simp del: powr_minus)
  have "roundFloat64 x \<ge> x - x / 2 ^ 53" using roundFloat64_error [OF p n] by linarith
  define e where "e = \<lfloor>log 2 x\<rfloor>"
  have e0: "0 \<le> e" using assms by (simp add: e_def)
  have fe: "float64_exponent x = e" using scaled_range(1) [OF p n] by (simp add: e_def)
  have "(2::int) ^ 52 \<le> round_even (x / 2 powr of_int (e - 52))"
    using scaled_range(2) [OF p n] by (intro round_even_mono_lower) (simp add: fe)
  then have "(2::real) ^ 52 \<le> of_int (round_even (x / 2 powr of_int (e - 52)))"
    by (metis of_int_le_iff of_int_numeral of_int_power)
  then have "2 ^ 52 * 2 powr of_int (e - 52) \<le> roundFloat64 x"
    unfolding roundFloat64_pos [OF p] fe by simp
  moreover have "2 ^ 52 * (2::real) powr of_int (e - 52) = 2 powr of_int e"
    by (simp add: powr_diff)
  moreover have "1 \<le> (2::real) powr real_of_int e"
    using e0 by (simp add: ge_one_powr_ge_zero)
  ultimately show ?thesis by linarith
qed

lemma roundFloat64_eval:
  assumes "0 < x" and "2 powr of_int e \<le> x" and "x < 2 powr of_int (e + 1)" and "- 1022 \<le> e"
  shows "roundFloat64 x =
    of_int (round_even (x / 2 powr of_int (e - 52))) * 2 powr of_int (e - 52)"
proof -
  have "\<lfloor>log 2 x\<rfloor> = e"
    using floor_log_eq_powr_iff [of x 2 e] assms by simp
  then have "float64_exponent x = e"
    using assms(1,4) by (simp add: float64_exponent_pos)
  then show ?thesis using roundFloat64_pos [OF assms(1)] by simp
qed

lemma two_powr_nat: "(2::real) powr of_int (int n) = 2 ^ n"
  using powr_realpow [of 2 n] by simp

lemma two_powr_nat_Suc: "(2::real) powr of_int (int n + 1) = 2 ^ (n + 1)"
proof -
  have "(2::real) powr real (n + 1) = 2 ^ (n + 1)" by (rule powr_realpow) simp
  moreover have "real_of_int (int n + 1) = real (n + 1)" by simp
  ultimately show ?thesis by (simp only:)
qed

lemma two_powr_neg_nat: "(2::real) powr of_int (- int n) = 1 / 2 ^ n"
proof -
  have "(2::real) powr (- real n) = 1 / 2 powr real n" by (rule powr_minus_divide)
  moreover have "(2::real) powr real n = 2 ^ n" by (rule powr_realpow) simp
  moreover have "real_of_int (- int n) = - real n" by simp
  ultimately show ?thesis by (simp only:)
qed

lemma two_powr_neg_nat_Suc: "(2::real) powr of_int (- int n + 1) = 2 / 2 ^ n"
proof -
  have "(2::real) powr (1 - real n) = 2 powr 1 / 2 powr real n" by (rule powr_diff)
  moreover have "(2::real) powr real n = 2 ^ n" by (rule powr_realpow) simp
  moreover have "(2::real) powr 1 = 2" by simp
  moreover have "real_of_int (- int n + 1) = 1 - real n" by simp
  ultimately show ?thesis by (simp only:)
qed

lemma roundFloat64_small:
  assumes "2 ^ n \<le> x" and "x < 2 ^ (n + 1)" and "n \<le> 52"
  shows "roundFloat64 x = of_int (round_even (x * 2 ^ (52 - n))) / 2 ^ (52 - n)"
proof -
  have "(0::real) < 2 ^ n" by simp
  with assms(1) have p: "0 < x" by linarith
  have a: "(2::real) powr of_int (int n) \<le> x" using assms(1) by (simp only: two_powr_nat)
  have b: "x < (2::real) powr of_int (int n + 1)" using assms(2) by (simp only: two_powr_nat_Suc)
  have "int n - 52 = - int (52 - n)" using assms(3) by simp
  then have u: "(2::real) powr of_int (int n - 52) = 1 / 2 ^ (52 - n)"
    by (simp only: two_powr_neg_nat)
  have r: "- 1022 \<le> int n" by simp
  show ?thesis
    using roundFloat64_eval [OF p a b r] unfolding u by simp
qed

lemma roundFloat64_large:
  assumes "2 ^ n \<le> x" and "x < 2 ^ (n + 1)" and "52 \<le> n"
  shows "roundFloat64 x = of_int (round_even (x / 2 ^ (n - 52))) * 2 ^ (n - 52)"
proof -
  have "(0::real) < 2 ^ n" by simp
  with assms(1) have p: "0 < x" by linarith
  have a: "(2::real) powr of_int (int n) \<le> x" using assms(1) by (simp only: two_powr_nat)
  have b: "x < (2::real) powr of_int (int n + 1)" using assms(2) by (simp only: two_powr_nat_Suc)
  have "int n - 52 = int (n - 52)" using assms(3) by simp
  then have u: "(2::real) powr of_int (int n - 52) = 2 ^ (n - 52)"
    by (simp only: two_powr_nat)
  have r: "- 1022 \<le> int n" by simp
  show ?thesis
    using roundFloat64_eval [OF p a b r] unfolding u by simp
qed

lemma roundFloat64_frac:
  assumes "1 / 2 ^ n \<le> x" and "x < 2 / 2 ^ n" and "n \<le> 1022"
  shows "roundFloat64 x = of_int (round_even (x * 2 ^ (52 + n))) / 2 ^ (52 + n)"
proof -
  have "(0::real) < 1 / 2 ^ n" by simp
  with assms(1) have p: "0 < x" by linarith
  have a: "(2::real) powr of_int (- int n) \<le> x" using assms(1) by (simp only: two_powr_neg_nat)
  have b: "x < (2::real) powr of_int (- int n + 1)"
    using assms(2) by (simp only: two_powr_neg_nat_Suc)
  have "- int n - 52 = - int (52 + n)" by simp
  then have u: "(2::real) powr of_int (- int n - 52) = 1 / 2 ^ (52 + n)"
    by (simp only: two_powr_neg_nat)
  have r: "- 1022 \<le> - int n" using assms(3) by simp
  show ?thesis
    using roundFloat64_eval [OF p a b r] unfolding u by simp
qed

lemma roundFloat64_le_double:
  assumes "0 < x" and "2 powr (- 1022) \<le> x"
  shows "roundFloat64 x \<le> 2 * x"
proof -
  have "x / 2 ^ 53 \<le> x" using assms(1) by (simp add: field_simps)
  then show ?thesis using roundFloat64_error [OF assms] by linarith
qed

lemma normal_ge:
  assumes "1 / 2 ^ 1022 \<le> x"
  shows "(2::real) powr (- 1022) \<le> x"
proof -
  have "(2::real) powr (- 1022) = 1 / 2 ^ 1022"
    using two_powr_neg_nat [of 1022] by simp
  then show ?thesis using assms by simp
qed

lemma normal_ge_pow:
  fixes x :: real
  assumes "1 / 2 ^ n \<le> x" and "n \<le> 1022"
  shows "1 / 2 ^ 1022 \<le> x"
proof -
  have "(2::real) ^ n \<le> 2 ^ 1022" using assms(2) by (intro power_increasing) simp_all
  then have "(1::real) / 2 ^ 1022 \<le> 1 / 2 ^ n" by (intro divide_left_mono) simp_all
  with assms(1) show ?thesis by linarith
qed

text \<open>The rounding of a value of the normal range, within the relative error 2^-53.\<close>

lemma roundFloat64_rel:
  assumes "1 / 2 ^ 1022 \<le> x"
  shows "x * (1 - 1 / 2 ^ 53) \<le> roundFloat64 x" and "roundFloat64 x \<le> x * (1 + 1 / 2 ^ 53)"
proof -
  have "(0::real) < 1 / 2 ^ 1022" by simp
  with assms have p: "0 < x" by linarith
  have e: "\<bar>roundFloat64 x - x\<bar> \<le> x / 2 ^ 53"
    using roundFloat64_error [OF p normal_ge [OF assms]] .
  have l: "x * (1 - 1 / 2 ^ 53) = x - x / 2 ^ 53" by (simp add: algebra_simps)
  have u: "x * (1 + 1 / 2 ^ 53) = x + x / 2 ^ 53" by (simp add: algebra_simps)
  show "x * (1 - 1 / 2 ^ 53) \<le> roundFloat64 x" unfolding l using e by linarith
  show "roundFloat64 x \<le> x * (1 + 1 / 2 ^ 53)" unfolding u using e by linarith
qed

lemma float64_of_uint64_value:
  "float64_of_uint64 a = Finite (roundFloat64 (real (unat a)))"
proof (cases "a = 0")
  case True
  then show ?thesis by (simp add: float64_of_uint64_def mkFloat64_def roundFloat64_def)
next
  case False
  then have "0 < unat a" by (simp add: unat_gt_0)
  then have ge: "1 \<le> real (unat a)" by (simp del: of_nat_unat)
  have "unat a < 2 ^ 64" using unsigned_less [of a, where ?'a = nat] by simp
  then have lt: "real (unat a) < 2 ^ 64"
    by (metis of_nat_less_iff of_nat_numeral of_nat_power)
  have n: "(2::real) powr (- 1022) \<le> real (unat a)"
    using ge by (intro normal_ge normal_ge_pow [of 0]) simp_all
  have "roundFloat64 (real (unat a)) \<le> 2 * real (unat a)"
    using ge by (intro roundFloat64_le_double n) simp
  then have "roundFloat64 (real (unat a)) < 2 ^ 1024" using lt by simp
  moreover have "0 \<le> roundFloat64 (real (unat a))"
    by (rule roundFloat64_nonneg) (simp del: of_nat_unat)
  ultimately show ?thesis
    by (simp add: float64_of_uint64_def mkFloat64_def del: of_nat_unat)
qed

lemma mkFloat64_finite:
  assumes "0 \<le> x" and "roundFloat64 x < 2 ^ 1024"
  shows "mkFloat64 x = Finite (roundFloat64 x)"
  using assms roundFloat64_nonneg [OF assms(1)] by (simp add: mkFloat64_def)

lemma usage_value:
  fixes a b :: "64 word"
  assumes "b \<noteq> 0"
  shows "\<exists>r. fmul (fdiv (float64_of_uint64 a) (float64_of_uint64 b)) (Finite 100) = Finite r \<and>
             0 \<le> r \<and>
             100 * (real (unat a) / real (unat b)) * (1 - 1 / 2 ^ 50) \<le> r \<and>
             r \<le> 100 * (real (unat a) / real (unat b)) * (1 + 1 / 2 ^ 50)"
proof -
  define N where "N = real (unat a)"
  define D where "D = real (unat b)"
  define A where "A = roundFloat64 N"
  define B where "B = roundFloat64 D"
  define eu :: real where "eu = 1 + 1 / 2 ^ 53"
  define el :: real where "el = 1 - 1 / 2 ^ 53"
  have el_pos: "0 < el" and eu_pos: "0 < eu" by (simp_all add: el_def eu_def)
  have num_u: "eu / el * eu * eu \<le> 1 + 1 / 2 ^ 50" by (simp add: el_def eu_def)
  have num_l: "1 - 1 / 2 ^ 50 \<le> el / eu * el * el" by (simp add: el_def eu_def)
  have "0 < unat b" using assms by (simp add: unat_gt_0)
  then have D1: "1 \<le> D" by (simp add: D_def del: of_nat_unat)
  have "unat b < 2 ^ 64" using unsigned_less [of b, where ?'a = nat] by simp
  then have D64: "D < 2 ^ 64" unfolding D_def
    by (metis of_nat_less_iff of_nat_numeral of_nat_power)
  have "unat a < 2 ^ 64" using unsigned_less [of a, where ?'a = nat] by simp
  then have N64: "N < 2 ^ 64" unfolding N_def
    by (metis of_nat_less_iff of_nat_numeral of_nat_power)
  have N0: "0 \<le> N" by (simp add: N_def del: of_nat_unat)
  have Dn: "1 / 2 ^ 1022 \<le> D" using D1 by (intro normal_ge_pow [of 0]) simp_all
  have B1: "1 \<le> B" unfolding B_def using D1 by (rule roundFloat64_ge_1)
  have Bl: "D * el \<le> B" and Bu: "B \<le> D * eu"
    unfolding B_def el_def eu_def using roundFloat64_rel [OF Dn] by simp_all
  have B65: "B \<le> 2 ^ 65" using Bu D64 eu_pos by (simp add: eu_def) 
  have fa: "float64_of_uint64 a = Finite A" and fb: "float64_of_uint64 b = Finite B"
    by (simp_all add: float64_of_uint64_value A_def B_def N_def D_def del: of_nat_unat)
  show ?thesis
  proof (cases "N = 0")
    case True
    then have "A = 0" by (simp add: A_def roundFloat64_def)
    then have "fmul (fdiv (float64_of_uint64 a) (float64_of_uint64 b)) (Finite 100) = Finite 0"
      using B1 by (simp add: fa fb mkFloat64_def roundFloat64_def)
    then show ?thesis using True by (simp add: N_def del: of_nat_unat)
  next
    case False
    then have "unat a \<noteq> 0" by (simp add: N_def del: of_nat_unat)
    then have N1: "1 \<le> N" by (simp add: N_def del: of_nat_unat)
    have Nn: "1 / 2 ^ 1022 \<le> N" using N1 by (intro normal_ge_pow [of 0]) simp_all
    have A1: "1 \<le> A" unfolding A_def using N1 by (rule roundFloat64_ge_1)
    have Al: "N * el \<le> A" and Au: "A \<le> N * eu"
      unfolding A_def el_def eu_def using roundFloat64_rel [OF Nn] by simp_all
    have A65: "A \<le> 2 ^ 65" using Au N64 by (simp add: eu_def)
    define X where "X = N / D"
    have X0: "0 < X" using N1 D1 by (simp add: X_def)
    define q where "q = A / B"
    have q_lo: "1 / 2 ^ 65 \<le> q" unfolding q_def using A1 B65 B1 by (intro frac_le) simp_all
    have q_hi: "q \<le> 2 ^ 65" unfolding q_def using A65 B1
      by (metis (no_types, opaque_lifting) div_by_1 frac_le order_le_less_trans zero_less_one less_eq_real_def
          zero_le_numeral zero_le_power A1 order_trans zero_le_one)
    have qXu: "q \<le> X * (eu / el)"
    proof -
      have "A / B \<le> (N * eu) / (D * el)"
        using Au Bl A1 D1 el_pos by (intro frac_le) simp_all
      also have "\<dots> = X * (eu / el)" by (simp add: X_def)
      finally show ?thesis by (simp add: q_def)
    qed
    have qXl: "X * (el / eu) \<le> q"
    proof -
      have "(N * el) / (D * eu) \<le> A / B"
        using Al Bu N1 B1 A1 el_pos by (intro frac_le) simp_all
      moreover have "(N * el) / (D * eu) = X * (el / eu)" by (simp add: X_def)
      ultimately show ?thesis by (simp add: q_def)
    qed
    define Q where "Q = roundFloat64 q"
    have qn: "1 / 2 ^ 1022 \<le> q" using q_lo by (intro normal_ge_pow [of 65]) simp_all
    have "(0::real) < 1 / 2 ^ 65" by simp
    with q_lo have q0: "0 < q" by linarith
    have Ql: "q * el \<le> Q" and Qu: "Q \<le> q * eu"
      unfolding Q_def el_def eu_def using roundFloat64_rel [OF qn] by simp_all
    have Q66: "Q \<le> 2 ^ 66" using Qu q_hi by (simp add: eu_def)
    have Q_lo: "1 / 2 ^ 66 \<le> Q"
    proof -
      have "1 / 2 ^ 66 \<le> q * el" using q_lo by (simp add: el_def)
      then show ?thesis using Ql by linarith
    qed
    have fq: "mkFloat64 q = Finite Q"
      unfolding Q_def using q0 Q66 by (intro mkFloat64_finite) (simp_all add: Q_def)
    define p where "p = Q * 100"
    have pn: "1 / 2 ^ 1022 \<le> p" using Q_lo by (intro normal_ge_pow [of 66]) (simp_all add: p_def)
    have "(0::real) < 1 / 2 ^ 66" by simp
    with Q_lo have "0 < Q" by linarith
    then have p0: "0 < p" by (simp add: p_def)
    define r where "r = roundFloat64 p"
    have rl: "p * el \<le> r" and ru: "r \<le> p * eu"
      unfolding r_def el_def eu_def using roundFloat64_rel [OF pn] by simp_all
    have r74: "r < 2 ^ 1024" using ru Q66 by (simp add: eu_def p_def)
    have fr: "mkFloat64 p = Finite r"
      unfolding r_def using p0 r74 by (intro mkFloat64_finite) (simp_all add: r_def)
    have res: "fmul (fdiv (float64_of_uint64 a) (float64_of_uint64 b)) (Finite 100) = Finite r"
      using B1 fq fr by (simp add: fa fb q_def p_def)
    have r0: "0 \<le> r" unfolding r_def using p0 by (intro roundFloat64_nonneg) simp
    have up: "r \<le> 100 * X * (1 + 1 / 2 ^ 50)"
    proof -
      have "Q \<le> X * (eu / el) * eu" using Qu qXu eu_pos
        by (meson mult_right_mono order_trans less_imp_le)
      then have "Q * 100 \<le> X * (eu / el) * eu * 100" by (intro mult_right_mono) simp_all
      then have "p \<le> X * (eu / el) * eu * 100" by (simp only: p_def)
      then have "r \<le> X * (eu / el) * eu * 100 * eu" using ru eu_pos
        by (meson mult_right_mono order_trans less_imp_le)
      also have "\<dots> = 100 * X * (eu / el * eu * eu)" by simp
      also have "\<dots> \<le> 100 * X * (1 + 1 / 2 ^ 50)"
        using num_u X0 by (intro mult_left_mono) simp_all
      finally show ?thesis .
    qed
    have lo: "100 * X * (1 - 1 / 2 ^ 50) \<le> r"
    proof -
      have "X * (el / eu) * el \<le> Q" using Ql qXl el_pos
        by (meson mult_right_mono order_trans less_imp_le)
      then have "X * (el / eu) * el * 100 \<le> Q * 100" by (intro mult_right_mono) simp_all
      then have "X * (el / eu) * el * 100 \<le> p" by (simp only: p_def)
      then have t: "X * (el / eu) * el * 100 * el \<le> r" using rl el_pos
        by (meson mult_right_mono order_trans less_imp_le)
      have "100 * X * (1 - 1 / 2 ^ 50) \<le> 100 * X * (el / eu * el * el)"
        using num_l X0 by (intro mult_left_mono) simp_all
      also have "\<dots> = X * (el / eu) * el * 100 * el" by simp
      also have "\<dots> \<le> r" by (rule t)
      finally show ?thesis .
    qed
    from res r0 lo up show ?thesis unfolding X_def N_def D_def by blast
  qed
qed

lemma roundFloat64_1: "roundFloat64 1 = 1"
  using roundFloat64_small [of 0 1] by (simp add: round_even_def)

lemma roundFloat64_50: "roundFloat64 50 = 50"
  using roundFloat64_small [of 5 50] by (simp add: round_even_def)

lemma roundFloat64_100: "roundFloat64 100 = 100"
  using roundFloat64_small [of 6 100] by (simp add: round_even_def)

lemma roundFloat64_half: "roundFloat64 (1 / 2) = 1 / 2"
  using roundFloat64_frac [of 1 "1 / 2"] by (simp add: round_even_def)

lemma usage_50_100:
  "fmul (fdiv (float64_of_uint64 50) (float64_of_uint64 100)) (Finite 100) = Finite 50"
  by (simp add: float64_of_uint64_value mkFloat64_def roundFloat64_50 roundFloat64_100
      roundFloat64_half)

lemma usage_equal:
  assumes "a \<noteq> 0"
  shows "fmul (fdiv (float64_of_uint64 a) (float64_of_uint64 a)) (Finite 100) = Finite 100"
proof -
  have "0 < unat a" using assms by (simp add: unat_gt_0)
  then have "1 \<le> real (unat a)" by (simp del: of_nat_unat)
  then have "1 \<le> roundFloat64 (real (unat a))" by (rule roundFloat64_ge_1)
  then show ?thesis
    by (simp add: float64_of_uint64_value mkFloat64_def roundFloat64_1 roundFloat64_100
        del: of_nat_unat)
qed

lemma usage_wrapped:
  "fmul (fdiv (float64_of_uint64 (60 - 100)) (float64_of_uint64 60)) (Finite 100) =
     Finite 30744573456182587392"
proof -
  have a: "roundFloat64 18446744073709551576 = 18446744073709551616"
    using roundFloat64_large [of 63 18446744073709551576] by (simp add: round_even_def)
  have b: "roundFloat64 60 = 60"
    using roundFloat64_small [of 5 60] by (simp add: round_even_def)
  have q: "roundFloat64 (4611686018427387904 / 15) = 307445734561825856"
    using roundFloat64_large [of 58 "4611686018427387904 / 15"] by (simp add: round_even_def)
  have p: "roundFloat64 30744573456182585600 = 30744573456182587392"
    using roundFloat64_large [of 64 30744573456182585600] by (simp add: round_even_def)
  have u: "unat (60 - 100 :: 64 word) = 18446744073709551576" by simp
  show ?thesis
    by (simp add: float64_of_uint64_value mkFloat64_def u a b q p del: of_nat_unat)
qed

lemma cleanPath_rooted: "cleanPath p \<noteq> [] \<and> hd (cleanPath p) = CHR ''/''"
  by (simp add: cleanPath_def path_Clean_def Let_def)

section \<open>The access gate\<close>

lemma accessGate_allow_iff:
  "accessGate s r = Next \<longleftrightarrow>
     isLocalhost (clientIP r) \<or>
     (\<exists>a. ParseAddr (clientIP r) = Inr a \<and> (isTailscaleIP a \<or> isSelfAddr s a))"
  by (auto simp: accessGate_def Let_def split: sum.splits)

lemma accessGate_deny_status:
  "accessGate s r = Respond es \<Longrightarrow> status_of es = 403"
  by (auto simp: accessGate_def Let_def http_Error_def split: sum.splits if_splits)

lemma requireTailscale_deny_status:
  "accessGate s r \<noteq> Next \<Longrightarrow> status_of (requireTailscale s h w r) = 403"
  using accessGate_deny_status [of s r]
  by (cases "accessGate s r") (simp_all add: requireTailscale_def)

text \<open>
  C1. The claim: a request whose client address parses as IPv4 is allowed if and only if
  its first byte is 100 and its second byte has the top bits 01, or it is a loopback
  literal. The gate has a third way in: with a backend present, an address equal to one
  of the node's own addresses is allowed as well, whatever its range. Here a node whose
  own address is 10.0.0.5 admits a request from 10.0.0.5.
\<close>

theorem C1_roster_counterexample:
  "ParseAddr (clientIP \<lparr>Method = ''GET'', URL_Path = ''/'', URL_Query = Map.empty,
                         RemoteAddr = ''10.0.0.5:4242''\<rparr>) = Inr (Addr4 10 0 0 5) \<and>
   \<not> (accessGate \<lparr>listenAddr = '':6942'',
                    lb = Some \<lparr>Self = Some \<lparr>TailscaleIPs = [Addr4 10 0 0 5]\<rparr>\<rparr>\<rparr>
                  \<lparr>Method = ''GET'', URL_Path = ''/'', URL_Query = Map.empty,
                   RemoteAddr = ''10.0.0.5:4242''\<rparr> = Next \<longleftrightarrow>
        ((10 :: 8 word) = 100 \<and> ((0 :: 8 word) AND 0xC0) = 0x40) \<or>
        isLocalhost (clientIP \<lparr>Method = ''GET'', URL_Path = ''/'', URL_Query = Map.empty,
                               RemoteAddr = ''10.0.0.5:4242''\<rparr>))"
  by (simp add: accessGate_def isSelfAddr_def isTailscaleIP_def isLocalhost_def
      split_eval parse_eval)

text \<open>
  C1, amended. A request whose client address parses as the IPv4 address a.b.c.d is
  allowed if and only if a = 100 and b AND 0xC0 = 0x40, or the client address is a
  loopback literal, or a backend is present and lists the address among the node's own
  addresses; every other such request is answered with status 403.
\<close>

theorem C1_ipv4_gate:
  assumes "ParseAddr (clientIP r) = Inr (Addr4 a b c d)"
  shows "(accessGate s r = Next \<longleftrightarrow>
            (a = 100 \<and> (b AND 0xC0) = 0x40) \<or> isLocalhost (clientIP r) \<or>
            isSelfAddr s (Addr4 a b c d)) \<and>
         (accessGate s r \<noteq> Next \<longrightarrow>
            (\<forall>next w. status_of (requireTailscale s next w r) = 403))"
proof -
  have allow: "accessGate s r = Next \<longleftrightarrow>
      (a = 100 \<and> (b AND 0xC0) = 0x40) \<or> isLocalhost (clientIP r) \<or> isSelfAddr s (Addr4 a b c d)"
    using assms by (auto simp: accessGate_allow_iff isTailscaleIP_def)
  from allow requireTailscale_deny_status [of s r] show ?thesis by blast
qed

theorem C1_ipv4_gate_witness:
  "ParseAddr (clientIP \<lparr>Method = ''GET'', URL_Path = ''/metrics'', URL_Query = Map.empty,
                         RemoteAddr = ''100.101.102.103:51820''\<rparr>) = Inr (Addr4 100 101 102 103) \<and>
   accessGate \<lparr>listenAddr = '':6942'', lb = None\<rparr>
     \<lparr>Method = ''GET'', URL_Path = ''/metrics'', URL_Query = Map.empty,
      RemoteAddr = ''100.101.102.103:51820''\<rparr> = Next \<and>
   ParseAddr (clientIP \<lparr>Method = ''GET'', URL_Path = ''/metrics'', URL_Query = Map.empty,
                         RemoteAddr = ''8.8.8.8:53''\<rparr>) = Inr (Addr4 8 8 8 8) \<and>
   status_of (requireTailscale \<lparr>listenAddr = '':6942'', lb = None\<rparr> (\<lambda>w r. [])
     \<lparr>isFlusher = True\<rparr>
     \<lparr>Method = ''GET'', URL_Path = ''/metrics'', URL_Query = Map.empty,
      RemoteAddr = ''8.8.8.8:53''\<rparr>) = 403"
proof -
  have p1: "ParseAddr (clientIP \<lparr>Method = ''GET'', URL_Path = ''/metrics'', URL_Query = Map.empty,
      RemoteAddr = ''100.101.102.103:51820''\<rparr>) = Inr (Addr4 100 101 102 103)"
    by (simp add: split_eval parse_eval)
  have p2: "ParseAddr (clientIP \<lparr>Method = ''GET'', URL_Path = ''/metrics'', URL_Query = Map.empty,
      RemoteAddr = ''8.8.8.8:53''\<rparr>) = Inr (Addr4 8 8 8 8)"
    by (simp add: split_eval parse_eval)
  have l2: "\<not> isLocalhost (clientIP \<lparr>Method = ''GET'', URL_Path = ''/metrics'',
      URL_Query = Map.empty, RemoteAddr = ''8.8.8.8:53''\<rparr>)"
    by (simp add: split_eval isLocalhost_def)
  show ?thesis
    using C1_ipv4_gate [OF p1, of "\<lparr>listenAddr = '':6942'', lb = None\<rparr>"]
      C1_ipv4_gate [OF p2, of "\<lparr>listenAddr = '':6942'', lb = None\<rparr>"] p1 p2 l2
    by (simp add: isSelfAddr_def)
qed


text \<open>
  C2. Whatever the backend, absent or present, a request whose client address is exactly
  \<^verbatim>\<open>127.0.0.1\<close>, \<^verbatim>\<open>::1\<close> or \<^verbatim>\<open>localhost\<close> is handed to the wrapped handler; the test comes
  before the address is parsed, so \<^verbatim>\<open>localhost\<close>, which does not parse, is allowed too.
\<close>

theorem C2_loopback_allowed:
  "(\<exists>e. ParseAddr ''localhost'' = Inl e) \<and>
   (clientIP r \<in> {''127.0.0.1'', ''::1'', ''localhost''} \<longrightarrow>
      accessGate s r = Next \<and> (\<forall>next w. requireTailscale s next w r = next w r))"
  by (auto simp: ParseAddr_localhost accessGate_def isLocalhost_def requireTailscale_def)

theorem C2_loopback_allowed_witness:
  "clientIP \<lparr>Method = ''GET'', URL_Path = ''/'', URL_Query = Map.empty,
             RemoteAddr = ''localhost:40000''\<rparr> = ''localhost'' \<and>
   accessGate \<lparr>listenAddr = '':6942'', lb = None\<rparr>
     \<lparr>Method = ''GET'', URL_Path = ''/'', URL_Query = Map.empty,
      RemoteAddr = ''localhost:40000''\<rparr> = Next \<and>
   clientIP \<lparr>Method = ''GET'', URL_Path = ''/'', URL_Query = Map.empty,
             RemoteAddr = ''[::1]:40000''\<rparr> = ''::1'' \<and>
   accessGate \<lparr>listenAddr = '':6942'', lb = Some \<lparr>Self = None\<rparr>\<rparr>
     \<lparr>Method = ''GET'', URL_Path = ''/'', URL_Query = Map.empty,
      RemoteAddr = ''[::1]:40000''\<rparr> = Next"
proof -
  have c1: "clientIP \<lparr>Method = ''GET'', URL_Path = ''/'', URL_Query = Map.empty,
      RemoteAddr = ''localhost:40000''\<rparr> = ''localhost''"
    by (simp add: split_eval)
  have c2: "clientIP \<lparr>Method = ''GET'', URL_Path = ''/'', URL_Query = Map.empty,
      RemoteAddr = ''[::1]:40000''\<rparr> = ''::1''"
    by (simp add: split_eval)
  show ?thesis
    using C2_loopback_allowed [of "\<lparr>Method = ''GET'', URL_Path = ''/'', URL_Query = Map.empty,
        RemoteAddr = ''localhost:40000''\<rparr>" "\<lparr>listenAddr = '':6942'', lb = None\<rparr>"]
      C2_loopback_allowed [of "\<lparr>Method = ''GET'', URL_Path = ''/'', URL_Query = Map.empty,
        RemoteAddr = ''[::1]:40000''\<rparr>" "\<lparr>listenAddr = '':6942'', lb = Some \<lparr>Self = None\<rparr>\<rparr>"]
      c1 c2
    by simp
qed

text \<open>
  C3. On every route, a request the gate does not pass on is answered with status 403,
  the answer is the same whatever the wrapped handler is, and neither the collector is
  called nor the shutdown goroutine started.
\<close>

theorem C3_denied_no_handler:
  assumes "accessGate s r \<noteq> Next"
  shows "status_of (Start env s w r) = 403 \<and>
         (\<forall>next next'. requireTailscale s next w r = requireTailscale s next' w r) \<and>
         Call_GetSystemMetrics \<notin> set (Start env s w r) \<and>
         (\<forall>force. Go_ShutdownSystem force \<notin> set (Start env s w r))"
proof -
  from assms obtain es where es: "accessGate s r = Respond es"
    by (cases "accessGate s r") auto
  have rt: "requireTailscale s h w r = es" for h
    by (simp add: requireTailscale_def es)
  have st: "Start env s w r = es"
    by (simp add: Start_def rt)
  have quiet: "Call_GetSystemMetrics \<notin> set es \<and> (\<forall>force. Go_ShutdownSystem force \<notin> set es)"
    using es by (auto simp: accessGate_def Let_def http_Error_def split: sum.splits if_splits)
  from accessGate_deny_status [OF es] rt st quiet show ?thesis by simp
qed

theorem C3_denied_no_handler_witness:
  "accessGate \<lparr>listenAddr = '':6942'', lb = None\<rparr>
     \<lparr>Method = ''POST'', URL_Path = ''/shutdown'', URL_Query = [''force'' \<mapsto> [''true'']],
      RemoteAddr = ''8.8.8.8:53''\<rparr> \<noteq> Next \<and>
   status_of (Start \<lparr>os_Hostname = Inr ''node'', GetSystemMetrics = Inr SystemMetrics_zero,
                     fmt_2f = (\<lambda>x. ''0.00''), fmt_d = (\<lambda>x. ''0'')\<rparr>
                \<lparr>listenAddr = '':6942'', lb = None\<rparr> \<lparr>isFlusher = True\<rparr>
                \<lparr>Method = ''POST'', URL_Path = ''/shutdown'',
                 URL_Query = [''force'' \<mapsto> [''true'']], RemoteAddr = ''8.8.8.8:53''\<rparr>) = 403 \<and>
   Go_ShutdownSystem True \<notin> set (Start \<lparr>os_Hostname = Inr ''node'',
                     GetSystemMetrics = Inr SystemMetrics_zero,
                     fmt_2f = (\<lambda>x. ''0.00''), fmt_d = (\<lambda>x. ''0'')\<rparr>
                \<lparr>listenAddr = '':6942'', lb = None\<rparr> \<lparr>isFlusher = True\<rparr>
                \<lparr>Method = ''POST'', URL_Path = ''/shutdown'',
                 URL_Query = [''force'' \<mapsto> [''true'']], RemoteAddr = ''8.8.8.8:53''\<rparr>)"
proof -
  have d: "accessGate \<lparr>listenAddr = '':6942'', lb = None\<rparr>
     \<lparr>Method = ''POST'', URL_Path = ''/shutdown'', URL_Query = [''force'' \<mapsto> [''true'']],
      RemoteAddr = ''8.8.8.8:53''\<rparr> \<noteq> Next"
    by (simp add: accessGate_def isSelfAddr_def isTailscaleIP_def isLocalhost_def
        split_eval parse_eval)
  show ?thesis
    using d C3_denied_no_handler [OF d] by blast
qed

text \<open>
  C10. The claim: every request from an admitted address whose path is neither
  \<^verbatim>\<open>/metrics\<close> nor \<^verbatim>\<open>/shutdown\<close> reaches \<^verbatim>\<open>handleRoot\<close>, and a GET gets 200 with the host
  name. The mux answers a path that is not in canonical form itself: a GET for
  \<^verbatim>\<open>//anything\<close> from the local host is redirected with status 301 to \<^verbatim>\<open>/anything\<close>,
  and no handler runs.
\<close>

theorem C10_noncanonical_counterexample:
  "accessGate \<lparr>listenAddr = '':6942'', lb = None\<rparr>
     \<lparr>Method = ''GET'', URL_Path = ''//anything'', URL_Query = Map.empty,
      RemoteAddr = ''127.0.0.1:40000''\<rparr> = Next \<and>
   ''//anything'' \<noteq> ''/metrics'' \<and> ''//anything'' \<noteq> ''/shutdown'' \<and>
   ServeHTTP \<lparr>os_Hostname = Inr ''node'', GetSystemMetrics = Inr SystemMetrics_zero,
              fmt_2f = (\<lambda>x. ''0.00''), fmt_d = (\<lambda>x. ''0'')\<rparr>
     \<lparr>listenAddr = '':6942'', lb = None\<rparr> \<lparr>isFlusher = True\<rparr>
     \<lparr>Method = ''GET'', URL_Path = ''//anything'', URL_Query = Map.empty,
      RemoteAddr = ''127.0.0.1:40000''\<rparr> = [Redirect ''/anything'' 301] \<and>
   status_of [Redirect ''/anything'' 301] = 301"
  by (simp add: accessGate_def isLocalhost_def split_eval ServeHTTP_def cleanPath_def
      path_Clean_def)

text \<open>
  C10, amended. The pattern \<^verbatim>\<open>/\<close> catches every canonical path other than \<^verbatim>\<open>/metrics\<close> and
  \<^verbatim>\<open>/shutdown\<close>: an admitted request whose path the mux's cleaning leaves unchanged and
  that is neither of the two is served by \<^verbatim>\<open>handleRoot\<close>, and with the method GET the
  answer has status 200 and the body \<^verbatim>\<open>hostname: \<close> followed by the host name (or
  \<^verbatim>\<open>unknown\<close>) and a newline.
\<close>

theorem C10_root_catch_all:
  assumes "accessGate s r = Next" and "URL_Path r \<noteq> ''/metrics''"
    and "URL_Path r \<noteq> ''/shutdown''" and "cleanPath (URL_Path r) = URL_Path r"
  shows "ServeHTTP env s w r = handleRoot env s w r \<and>
         (Method r = ''GET'' \<longrightarrow>
            status_of (ServeHTTP env s w r) = 200 \<and>
            body_of (ServeHTTP env s w r) =
              ''hostname: '' @ (case os_Hostname env of Inr name \<Rightarrow> name | Inl err \<Rightarrow> ''unknown'') @
              ''\<newline>'')"
proof -
  have rooted: "URL_Path r \<noteq> [] \<and> hd (URL_Path r) = CHR ''/''"
    using cleanPath_rooted [of "URL_Path r"] assms(4) by simp
  then have star: "URL_Path r \<noteq> ''*''" by auto
  have pre: "HasPrefix (URL_Path r) ''/''"
    using rooted by (cases "URL_Path r") (simp_all add: HasPrefix_def)
  have "ServeHTTP env s w r = Start env s w r"
    using star pre assms(4) by (simp add: ServeHTTP_def)
  then show ?thesis
    using assms(1,2,3)
    by (auto simp: Start_def requireTailscale_def handleRoot_def split: sum.splits)
qed

theorem C10_root_catch_all_witness:
  "accessGate \<lparr>listenAddr = '':6942'', lb = None\<rparr>
     \<lparr>Method = ''GET'', URL_Path = ''/anything'', URL_Query = Map.empty,
      RemoteAddr = ''127.0.0.1:40000''\<rparr> = Next \<and>
   cleanPath ''/anything'' = ''/anything'' \<and>
   status_of (ServeHTTP \<lparr>os_Hostname = Inr ''node'', GetSystemMetrics = Inr SystemMetrics_zero,
                     fmt_2f = (\<lambda>x. ''0.00''), fmt_d = (\<lambda>x. ''0'')\<rparr>
                \<lparr>listenAddr = '':6942'', lb = None\<rparr> \<lparr>isFlusher = True\<rparr>
                \<lparr>Method = ''GET'', URL_Path = ''/anything'', URL_Query = Map.empty,
                 RemoteAddr = ''127.0.0.1:40000''\<rparr>) = 200 \<and>
   body_of (ServeHTTP \<lparr>os_Hostname = Inr ''node'', GetSystemMetrics = Inr SystemMetrics_zero,
                     fmt_2f = (\<lambda>x. ''0.00''), fmt_d = (\<lambda>x. ''0'')\<rparr>
                \<lparr>listenAddr = '':6942'', lb = None\<rparr> \<lparr>isFlusher = True\<rparr>
                \<lparr>Method = ''GET'', URL_Path = ''/anything'', URL_Query = Map.empty,
                 RemoteAddr = ''127.0.0.1:40000''\<rparr>) = ''hostname: node\<newline>''"
proof -
  have a: "accessGate \<lparr>listenAddr = '':6942'', lb = None\<rparr>
     \<lparr>Method = ''GET'', URL_Path = ''/anything'', URL_Query = Map.empty,
      RemoteAddr = ''127.0.0.1:40000''\<rparr> = Next"
    by (simp add: accessGate_def isLocalhost_def split_eval)
  have c: "cleanPath ''/anything'' = ''/anything''"
    by (simp add: cleanPath_def path_Clean_def)
  have p: "URL_Path \<lparr>Method = ''GET'', URL_Path = ''/anything'', URL_Query = Map.empty,
      RemoteAddr = ''127.0.0.1:40000''\<rparr> \<noteq> ''/metrics''"
    "URL_Path \<lparr>Method = ''GET'', URL_Path = ''/anything'', URL_Query = Map.empty,
      RemoteAddr = ''127.0.0.1:40000''\<rparr> \<noteq> ''/shutdown''"
    "cleanPath (URL_Path \<lparr>Method = ''GET'', URL_Path = ''/anything'', URL_Query = Map.empty,
      RemoteAddr = ''127.0.0.1:40000''\<rparr>) = URL_Path \<lparr>Method = ''GET'',
      URL_Path = ''/anything'', URL_Query = Map.empty, RemoteAddr = ''127.0.0.1:40000''\<rparr>"
    using c by simp_all
  show ?thesis
    using a c C10_root_catch_all [OF a p, of
        "\<lparr>os_Hostname = Inr ''node'', GetSystemMetrics = Inr SystemMetrics_zero,
          fmt_2f = (\<lambda>x. ''0.00''), fmt_d = (\<lambda>x. ''0'')\<rparr>" "\<lparr>isFlusher = True\<rparr>",
        THEN conjunct2]
    by simp
qed

section \<open>IPv4-mapped IPv6 addresses\<close>

lemma mapped_not_tailscale: "Is4In6 a \<Longrightarrow> \<not> Is4 a \<and> \<not> isTailscaleIP a"
  by (cases a) (simp_all add: isTailscaleIP_def HasPrefix_def)

lemma mapped_not_localhost:
  assumes "ParseAddr ip = Inr a" and "Is4In6 a"
  shows "\<not> isLocalhost ip"
  using assms
  by (auto simp: isLocalhost_def ParseAddr_localhost ParseAddr_loopback4 ParseAddr_loopback6)

text \<open>
  C4. The claim: an IPv4-mapped IPv6 literal is resolved to the IPv4 address it embeds
  before the range tests, so that \<^verbatim>\<open>::ffff:100.64.1.2\<close> falls under the IPv4 rule. The gate
  never unmaps: the literal parses as an IPv6 address, \<^verbatim>\<open>Is4\<close> is false of it, and its text
  starts with \<^verbatim>\<open>::ffff:\<close>, not with the prefix of the IPv6 range. The embedded address
  100.64.1.2 passes the IPv4 test, the request from the mapped address is refused.
\<close>

theorem C4_mapped_counterexample:
  "clientIP \<lparr>Method = ''GET'', URL_Path = ''/'', URL_Query = Map.empty,
             RemoteAddr = ''[::ffff:100.64.1.2]:443''\<rparr> = ''::ffff:100.64.1.2'' \<and>
   ParseAddr ''::ffff:100.64.1.2'' = Inr (Addr6 [0, 0, 0, 0, 0, 0xffff, 0x6440, 0x0102] []) \<and>
   As4 (Addr6 [0, 0, 0, 0, 0, 0xffff, 0x6440, 0x0102] []) = [100, 64, 1, 2] \<and>
   isTailscaleIP (Addr4 100 64 1 2) \<and>
   accessGate \<lparr>listenAddr = '':6942'', lb = None\<rparr>
     \<lparr>Method = ''GET'', URL_Path = ''/'', URL_Query = Map.empty,
      RemoteAddr = ''[::ffff:100.64.1.2]:443''\<rparr> \<noteq> Next"
proof -
  have c: "clientIP \<lparr>Method = ''GET'', URL_Path = ''/'', URL_Query = Map.empty,
      RemoteAddr = ''[::ffff:100.64.1.2]:443''\<rparr> = ''::ffff:100.64.1.2''"
    by (simp add: split_eval)
  have p: "ParseAddr ''::ffff:100.64.1.2'' = Inr (Addr6 [0, 0, 0, 0, 0, 0xffff, 0x6440, 0x0102] [])"
    by (simp add: parse_eval)
  have a4: "As4 (Addr6 [0, 0, 0, 0, 0, 0xffff, 0x6440, 0x0102] []) = [100, 64, 1, 2]"
    by simp
  have t: "isTailscaleIP (Addr4 100 64 1 2)"
    by (simp add: isTailscaleIP_def)
  have m: "Is4In6 (Addr6 [0, 0, 0, 0, 0, 0xffff, 0x6440, 0x0102] [])"
    by simp
  have g: "accessGate \<lparr>listenAddr = '':6942'', lb = None\<rparr>
     \<lparr>Method = ''GET'', URL_Path = ''/'', URL_Query = Map.empty,
      RemoteAddr = ''[::ffff:100.64.1.2]:443''\<rparr> \<noteq> Next"
    using mapped_not_tailscale [OF m] mapped_not_localhost [OF p m]
    by (simp add: accessGate_allow_iff c p isSelfAddr_def)
  from c p a4 t g show ?thesis by blast
qed

text \<open>
  C4, amended. An IPv4-mapped IPv6 client address is kept as an IPv6 address: the IPv4
  rule is not applied to it and the range tests fail on it, so it is allowed only when a
  backend lists this very address among the node's own; otherwise it is refused with
  status 403.
\<close>

theorem C4_mapped_is_ipv6:
  assumes "ParseAddr (clientIP r) = Inr a" and "Is4In6 a"
  shows "\<not> Is4 a \<and> \<not> isTailscaleIP a \<and>
         (accessGate s r = Next \<longleftrightarrow> isSelfAddr s a) \<and>
         (\<not> isSelfAddr s a \<longrightarrow> (\<forall>next w. status_of (requireTailscale s next w r) = 403))"
proof -
  note nt = mapped_not_tailscale [OF assms(2)]
  note nl = mapped_not_localhost [OF assms]
  have allow: "accessGate s r = Next \<longleftrightarrow> isSelfAddr s a"
    using assms(1) nt nl by (auto simp: accessGate_allow_iff)
  from nt allow requireTailscale_deny_status [of s r] show ?thesis by blast
qed

theorem C4_mapped_is_ipv6_witness:
  "ParseAddr (clientIP \<lparr>Method = ''GET'', URL_Path = ''/'', URL_Query = Map.empty,
                         RemoteAddr = ''[::ffff:100.64.1.2]:443''\<rparr>) =
     Inr (Addr6 [0, 0, 0, 0, 0, 0xffff, 0x6440, 0x0102] []) \<and>
   Is4In6 (Addr6 [0, 0, 0, 0, 0, 0xffff, 0x6440, 0x0102] []) \<and>
   \<not> isTailscaleIP (Addr6 [0, 0, 0, 0, 0, 0xffff, 0x6440, 0x0102] []) \<and>
   status_of (requireTailscale \<lparr>listenAddr = '':6942'', lb = None\<rparr> (\<lambda>w r. [])
                \<lparr>isFlusher = True\<rparr>
                \<lparr>Method = ''GET'', URL_Path = ''/'', URL_Query = Map.empty,
                 RemoteAddr = ''[::ffff:100.64.1.2]:443''\<rparr>) = 403"
proof -
  have p: "ParseAddr (clientIP \<lparr>Method = ''GET'', URL_Path = ''/'', URL_Query = Map.empty,
      RemoteAddr = ''[::ffff:100.64.1.2]:443''\<rparr>) =
      Inr (Addr6 [0, 0, 0, 0, 0, 0xffff, 0x6440, 0x0102] [])"
    by (simp add: split_eval parse_eval)
  have m: "Is4In6 (Addr6 [0, 0, 0, 0, 0, 0xffff, 0x6440, 0x0102] [])"
    by simp
  show ?thesis
    using p m C4_mapped_is_ipv6 [OF p m, of "\<lparr>listenAddr = '':6942'', lb = None\<rparr>"]
    by (simp add: isSelfAddr_def)
qed

section \<open>The shutdown route\<close>

lemma ShutdownSystem_sleeps_first:
  "\<exists>rest. fst (ShutdownSystem p force) = Sleep_ms 100 # rest \<and> Sleep_ms 100 \<notin> set rest"
  by (cases p)
    (auto simp: shutdownSystem_linux_def shutdownSystem_darwin_def shutdownSystem_windows_def
      shutdownSystem_windows_xsys_def Let_def split: option.splits)

text \<open>
  C8. For an admitted POST to \<^verbatim>\<open>/shutdown\<close> on a response writer that can flush (as those
  of \<^verbatim>\<open>net/http\<close>'s server do), the handler writes the confirmation, which names
  \<^verbatim>\<open>forced\<close> exactly when the parameter \<^verbatim>\<open>force\<close> is \<^verbatim>\<open>true\<close> and \<^verbatim>\<open>graceful\<close> otherwise, flushes
  it, and only then starts the goroutine of the actuator; and on every platform, for
  every outcome of its calls, the actuator starts with the sleep of 100 ms, before any
  command or system call.
\<close>

theorem C8_response_before_shutdown:
  assumes "accessGate s r = Next" and "URL_Path r = ''/shutdown''" and "Method r = ''POST''"
    and "isFlusher w"
  shows "Start env s w r =
           [Logf ''Shutdown requested via web API (%s)''
              [if Values_Get (URL_Query r) ''force'' = ''true'' then ''forced'' else ''graceful''],
            SetHeader ''Content-Type'' ''text/plain'',
            Write (''Shutdown initiated ('' @
                   (if Values_Get (URL_Query r) ''force'' = ''true'' then ''forced'' else ''graceful'') @
                   '')...'' @ ''\<newline>''),
            Flush,
            Go_ShutdownSystem (Values_Get (URL_Query r) ''force'' = ''true'')] \<and>
         status_of (Start env s w r) = 200 \<and>
         (\<forall>p force. \<exists>rest. fst (ShutdownSystem p force) = Sleep_ms 100 # rest \<and>
                             Sleep_ms 100 \<notin> set rest)"
  using assms ShutdownSystem_sleeps_first
  by (simp add: Start_def requireTailscale_def handleShutdown_def Let_def)

theorem C8_response_before_shutdown_witness:
  "accessGate \<lparr>listenAddr = '':6942'', lb = None\<rparr>
     \<lparr>Method = ''POST'', URL_Path = ''/shutdown'', URL_Query = [''force'' \<mapsto> [''true'']],
      RemoteAddr = ''100.64.0.1:50000''\<rparr> = Next \<and>
   Start \<lparr>os_Hostname = Inr ''node'', GetSystemMetrics = Inr SystemMetrics_zero,
          fmt_2f = (\<lambda>x. ''0.00''), fmt_d = (\<lambda>x. ''0'')\<rparr>
     \<lparr>listenAddr = '':6942'', lb = None\<rparr> \<lparr>isFlusher = True\<rparr>
     \<lparr>Method = ''POST'', URL_Path = ''/shutdown'', URL_Query = [''force'' \<mapsto> [''true'']],
      RemoteAddr = ''100.64.0.1:50000''\<rparr> =
     [Logf ''Shutdown requested via web API (%s)'' [''forced''],
      SetHeader ''Content-Type'' ''text/plain'',
      Write ''Shutdown initiated (forced)...\<newline>'',
      Flush,
      Go_ShutdownSystem True] \<and>
   (\<exists>rest. fst (ShutdownSystem (Linux (\<lambda>argv. None)) True) = Sleep_ms 100 # rest)"
proof -
  have a: "accessGate \<lparr>listenAddr = '':6942'', lb = None\<rparr>
     \<lparr>Method = ''POST'', URL_Path = ''/shutdown'', URL_Query = [''force'' \<mapsto> [''true'']],
      RemoteAddr = ''100.64.0.1:50000''\<rparr> = Next"
    by (simp add: accessGate_def isLocalhost_def isTailscaleIP_def split_eval parse_eval)
  have b: "isFlusher \<lparr>isFlusher = True\<rparr>"
    by simp
  have p: "URL_Path \<lparr>Method = ''POST'', URL_Path = ''/shutdown'',
      URL_Query = [''force'' \<mapsto> [''true'']], RemoteAddr = ''100.64.0.1:50000''\<rparr> = ''/shutdown''"
    "Method \<lparr>Method = ''POST'', URL_Path = ''/shutdown'',
      URL_Query = [''force'' \<mapsto> [''true'']], RemoteAddr = ''100.64.0.1:50000''\<rparr> = ''POST''"
    by simp_all
  note t = C8_response_before_shutdown [OF a p b, of
      "\<lparr>os_Hostname = Inr ''node'', GetSystemMetrics = Inr SystemMetrics_zero,
        fmt_2f = (\<lambda>x. ''0.00''), fmt_d = (\<lambda>x. ''0'')\<rparr>"]
  have s1: "Start \<lparr>os_Hostname = Inr ''node'', GetSystemMetrics = Inr SystemMetrics_zero,
          fmt_2f = (\<lambda>x. ''0.00''), fmt_d = (\<lambda>x. ''0'')\<rparr>
     \<lparr>listenAddr = '':6942'', lb = None\<rparr> \<lparr>isFlusher = True\<rparr>
     \<lparr>Method = ''POST'', URL_Path = ''/shutdown'', URL_Query = [''force'' \<mapsto> [''true'']],
      RemoteAddr = ''100.64.0.1:50000''\<rparr> =
     [Logf ''Shutdown requested via web API (%s)'' [''forced''],
      SetHeader ''Content-Type'' ''text/plain'',
      Write ''Shutdown initiated (forced)...\<newline>'',
      Flush,
      Go_ShutdownSystem True]"
    using t by (simp add: Values_Get_def)
  have s2: "\<exists>rest. fst (ShutdownSystem (Linux (\<lambda>argv. None)) True) = Sleep_ms 100 # rest"
    using t by blast
  from a s1 s2 show ?thesis by blast
qed


section \<open>The shutdown actuators\<close>

text \<open>
  C7. The claim: on every platform, a failing primary mechanism is followed by a
  fallback, and when both fail the caller gets one failure that carries both errors.
  On macOS a failing \<^verbatim>\<open>shutdown\<close> is returned at once, with no second command; on Linux,
  when both commands fail, the error returned is that of the fallback alone.
\<close>

theorem C7_fallback_counterexample:
  "shutdownSystem_darwin (\<lambda>argv. Some ''exit status 1'') False =
     ([Sleep_ms 100, Run [''sudo'', ''shutdown'', ''-h'', ''+1'']], Some ''exit status 1'') \<and>
   shutdownSystem_linux
     (\<lambda>argv. if argv = [''shutdown'', ''-h'', ''+1''] then Some ''exit status 1''
             else Some ''exit status 2'') False =
     ([Sleep_ms 100, Run [''shutdown'', ''-h'', ''+1''], Run [''systemctl'', ''poweroff'']],
      Some ''exit status 2'')"
  by (simp add: shutdownSystem_darwin_def shutdownSystem_linux_def)

text \<open>
  C7, amended. On Linux, for both values of the flag, a failing primary command is
  followed by the fallback command before anything is returned, and the result is that
  of the fallback: success when it succeeds, its error alone when it fails too; a
  primary command that succeeds is the only one run.
\<close>

theorem C7_fallback_linux_only:
  "(let primary = (if force then [''systemctl'', ''poweroff'', ''-i'', ''--force'']
                   else [''shutdown'', ''-h'', ''+1'']);
        fallback = (if force then [''shutdown'', ''-h'', ''now'']
                    else [''systemctl'', ''poweroff''])
    in (run primary = None \<longrightarrow>
          shutdownSystem_linux run force = ([Sleep_ms 100, Run primary], None)) \<and>
       (run primary \<noteq> None \<longrightarrow>
          shutdownSystem_linux run force =
            ([Sleep_ms 100, Run primary, Run fallback], run fallback)))"
  by (auto simp: shutdownSystem_linux_def Let_def)

theorem C7_fallback_linux_only_witness:
  "shutdownSystem_linux
     (\<lambda>argv. if argv = [''shutdown'', ''-h'', ''+1''] then Some ''exit status 1'' else None) False =
     ([Sleep_ms 100, Run [''shutdown'', ''-h'', ''+1''], Run [''systemctl'', ''poweroff'']], None) \<and>
   shutdownSystem_linux (\<lambda>argv. None) True =
     ([Sleep_ms 100, Run [''systemctl'', ''poweroff'', ''-i'', ''--force'']], None)"
  using C7_fallback_linux_only [of False
      "\<lambda>argv. if argv = [''shutdown'', ''-h'', ''+1''] then Some ''exit status 1'' else None"]
    C7_fallback_linux_only [of True "\<lambda>argv. None"]
  by (simp add: Let_def)

section \<open>The collector on Windows\<close>

text \<open>
  C9. On Windows the collector reports 0 for the bytes sent and received, whatever the
  system calls return, and never fails. Every other field is what its system call
  gives: the CPU percentage from the differences of the kernel, user and idle times
  against the stored sample (0 on the first call, when the call fails or when the total
  has not moved), the memory and disk sizes with their percentages from the total and
  the free amounts (0 when the call fails), the uptime from the tick count in
  milliseconds; the sample of a successful call is stored for the next one.
\<close>

theorem C9_windows_network_zero:
  assumes "GetSystemTimes sys = (cret, cerr, idleTime, kernelTime, userTime)"
    and "GlobalMemoryStatusEx sys = (mret, merr, totalPhys, availPhys)"
    and "GetDiskFreeSpaceExW sys = (dret, derr, freeAvailable, totalBytes, totalFree)"
  shows
    "(let idleDelta = fileTimeToUint64 idleTime - w_idle lastCPUTimes;
          totalDelta = (fileTimeToUint64 kernelTime - w_kernel lastCPUTimes) +
                       (fileTimeToUint64 userTime - w_user lastCPUTimes)
      in getSystemMetrics_windows sys lastCPUTimes =
           ((\<lparr>CPUPercent =
                 (if cret = 0 \<or> w_time lastCPUTimes = 0 \<or> totalDelta = 0 then Finite 0
                  else fmul (fdiv (float64_of_uint64 (totalDelta - idleDelta))
                                  (float64_of_uint64 totalDelta)) (Finite 100)),
               MemoryUsed = (if mret = 0 then 0 else totalPhys - availPhys),
               MemoryTotal = (if mret = 0 then 0 else totalPhys),
               MemoryPercent =
                 (if mret = 0 \<or> totalPhys = 0 then Finite 0
                  else fmul (fdiv (float64_of_uint64 (totalPhys - availPhys))
                                  (float64_of_uint64 totalPhys)) (Finite 100)),
               DiskUsed = (if dret = 0 then 0 else totalBytes - totalFree),
               DiskTotal = (if dret = 0 then 0 else totalBytes),
               DiskPercent =
                 (if dret = 0 \<or> totalBytes = 0 then Finite 0
                  else fmul (fdiv (float64_of_uint64 (totalBytes - totalFree))
                                  (float64_of_uint64 totalBytes)) (Finite 100)),
               NetworkBytesSent = 0,
               NetworkBytesRecv = 0,
               UptimeSeconds = GetTickCount64 sys div 1000\<rparr>,
             None),
            (if cret = 0 then lastCPUTimes
             else \<lparr>w_idle = fileTimeToUint64 idleTime, w_kernel = fileTimeToUint64 kernelTime,
                   w_user = fileTimeToUint64 userTime, w_time = time_Now sys\<rparr>)))"
  using assms
  by (simp add: getSystemMetrics_windows_def getCPUUsage_windows_def getMemoryUsage_windows_def
      getDiskUsage_windows_def getUptime_windows_def percentOf_def SystemMetrics_zero_def
      Let_def word_gt_0)

theorem C9_windows_network_zero_witness:
  "getSystemMetrics_windows
     \<lparr>GetSystemTimes = (1, ''The operation completed successfully.'',
        \<lparr>LowDateTime = 550, HighDateTime = 0\<rparr>, \<lparr>LowDateTime = 1060, HighDateTime = 0\<rparr>,
        \<lparr>LowDateTime = 1040, HighDateTime = 0\<rparr>),
      time_Now = 2,
      GlobalMemoryStatusEx = (1, ''The operation completed successfully.'', 100, 50),
      GetDiskFreeSpaceExW = (0, ''Access is denied.'', 0, 0, 0),
      GetTickCount64 = 5000\<rparr>
     \<lparr>w_idle = 500, w_kernel = 1000, w_user = 1000, w_time = 1\<rparr> =
     ((\<lparr>CPUPercent = Finite 50, MemoryUsed = 50, MemoryTotal = 100, MemoryPercent = Finite 50,
        DiskUsed = 0, DiskTotal = 0, DiskPercent = Finite 0,
        NetworkBytesSent = 0, NetworkBytesRecv = 0, UptimeSeconds = 5\<rparr>, None),
      \<lparr>w_idle = 550, w_kernel = 1060, w_user = 1040, w_time = 2\<rparr>)"
proof -
  have ft: "fileTimeToUint64 \<lparr>LowDateTime = 550, HighDateTime = 0\<rparr> = 550"
    "fileTimeToUint64 \<lparr>LowDateTime = 1060, HighDateTime = 0\<rparr> = 1060"
    "fileTimeToUint64 \<lparr>LowDateTime = 1040, HighDateTime = 0\<rparr> = 1040"
    by (simp_all add: fileTimeToUint64_def)
  have g: "GetSystemTimes
     \<lparr>GetSystemTimes = (1, ''The operation completed successfully.'',
        \<lparr>LowDateTime = 550, HighDateTime = 0\<rparr>, \<lparr>LowDateTime = 1060, HighDateTime = 0\<rparr>,
        \<lparr>LowDateTime = 1040, HighDateTime = 0\<rparr>),
      time_Now = 2,
      GlobalMemoryStatusEx = (1, ''The operation completed successfully.'', 100, 50),
      GetDiskFreeSpaceExW = (0, ''Access is denied.'', 0, 0, 0),
      GetTickCount64 = 5000\<rparr> =
     (1, ''The operation completed successfully.'',
        \<lparr>LowDateTime = 550, HighDateTime = 0\<rparr>, \<lparr>LowDateTime = 1060, HighDateTime = 0\<rparr>,
        \<lparr>LowDateTime = 1040, HighDateTime = 0\<rparr>)"
    by simp
  show ?thesis
    using C9_windows_network_zero [OF g, of 1 "''The operation completed successfully.''" 100 50
        0 "''Access is denied.''" 0 0 0
        "\<lparr>w_idle = 500, w_kernel = 1000, w_user = 1000, w_time = 1\<rparr>"]
      usage_50_100
    by (simp add: ft Let_def)
qed

section \<open>The CPU samplers\<close>

lemmas stat_eval = readCPUStats_def HasPrefix_def Fields_def isSpace_def ParseUint_def
  isDigit_def digitVal_def

lemma usage_nonneg:
  "\<exists>x. fmul (fdiv (float64_of_uint64 a) (float64_of_uint64 b)) (Finite 100) = Finite x \<and> 0 \<le> x"
  if "b \<noteq> 0"
  using usage_value [OF that, of a] by blast

lemma getCPUUsage_linux_state:
  "readCPUStats file now = Inr stats \<Longrightarrow> snd (getCPUUsage_linux file now lastCPUStats) = stats"
  by (simp add: getCPUUsage_linux_def Let_def)

lemma real_unat_uint: "real (unat w) = real_of_int (uint w)"
  by (simp add: uint_nat del: of_nat_unat)

lemma uint_delta:
  fixes t t' :: "64 word"
  assumes "0 \<le> uint t' - uint t"
  shows "uint (t' - t) = uint t' - uint t"
proof -
  have "uint t' < 2 ^ 64" using uint_bounded [of t'] by simp
  moreover have "0 \<le> uint t" by simp
  ultimately have "uint t' - uint t < 2 ^ 64" by linarith
  then show ?thesis using assms by (simp add: uint_word_ariths)
qed

lemma uint_delta2:
  fixes t t' i i' :: "64 word"
  assumes "0 \<le> uint t' - uint t" and "0 \<le> (uint t' - uint t) - (uint i' - uint i)"
    and "(uint t' - uint t) - (uint i' - uint i) < 2 ^ 64"
  shows "uint ((t' - t) - (i' - i)) = (uint t' - uint t) - (uint i' - uint i)"
proof -
  have "uint ((t' - t) - (i' - i)) = (uint (t' - t) - uint (i' - i)) mod 2 ^ 64"
    by (simp add: uint_word_ariths)
  also have "uint (i' - i) = (uint i' - uint i) mod 2 ^ 64" by (simp add: uint_word_ariths)
  also have "(uint (t' - t) - (uint i' - uint i) mod 2 ^ 64) mod 2 ^ 64 =
      (uint (t' - t) - (uint i' - uint i)) mod 2 ^ 64"
    by (rule mod_diff_right_eq)
  also have "\<dots> = ((uint t' - uint t) - (uint i' - uint i)) mod 2 ^ 64"
    by (simp only: uint_delta [OF assms(1)])
  also have "\<dots> = (uint t' - uint t) - (uint i' - uint i)"
    using assms(2,3) by simp
  finally show ?thesis .
qed

lemma usage_formula:
  fixes t t' i i' :: "64 word"
  assumes "0 < uint t' - uint t" and "uint i' - uint i \<le> uint t' - uint t"
    and "(uint t' - uint t) - (uint i' - uint i) < 2 ^ 64"
  shows "\<exists>x. fmul (fdiv (float64_of_uint64 ((t' - t) - (i' - i))) (float64_of_uint64 (t' - t)))
               (Finite 100) = Finite x \<and>
             \<bar>x - 100 * (1 - real_of_int (uint i' - uint i) / real_of_int (uint t' - uint t))\<bar> \<le>
               100 * (1 - real_of_int (uint i' - uint i) / real_of_int (uint t' - uint t)) / 2 ^ 50"
proof -
  define dt where "dt = uint t' - uint t"
  define di where "di = uint i' - uint i"
  have dt0: "0 < dt" and le: "di \<le> dt" and lt: "dt - di < 2 ^ 64"
    using assms by (simp_all add: dt_def di_def)
  have ut: "uint (t' - t) = dt" unfolding dt_def using assms(1) by (intro uint_delta) simp
  have un: "uint ((t' - t) - (i' - i)) = dt - di"
    unfolding dt_def di_def using assms by (intro uint_delta2) simp_all
  have nz: "t' - t \<noteq> 0"
  proof
    assume "t' - t = 0"
    then have "uint (t' - t) = 0" by simp
    with ut dt0 show False by simp
  qed
  obtain r where r: "fmul (fdiv (float64_of_uint64 ((t' - t) - (i' - i)))
        (float64_of_uint64 (t' - t))) (Finite 100) = Finite r"
    and lo: "100 * (real (unat ((t' - t) - (i' - i))) / real (unat (t' - t))) * (1 - 1 / 2 ^ 50) \<le> r"
    and hi: "r \<le> 100 * (real (unat ((t' - t) - (i' - i))) / real (unat (t' - t))) * (1 + 1 / 2 ^ 50)"
    using usage_value [OF nz, of "(t' - t) - (i' - i)"] by blast
  define F where "F = 100 * (1 - real_of_int di / real_of_int dt)"
  have X: "100 * (real (unat ((t' - t) - (i' - i))) / real (unat (t' - t))) = F"
    unfolding real_unat_uint ut un F_def using dt0 by (simp add: field_simps)
  have F0: "0 \<le> F" unfolding F_def using dt0 le by (simp add: field_simps)
  have "F * (1 - 1 / 2 ^ 50) \<le> r" and "r \<le> F * (1 + 1 / 2 ^ 50)"
    using lo hi unfolding X by simp_all
  then have "F - F / 2 ^ 50 \<le> r" and "r \<le> F + F / 2 ^ 50"
    by (simp_all add: algebra_simps)
  then have "\<bar>r - F\<bar> \<le> F / 2 ^ 50" by linarith
  with r show ?thesis unfolding F_def dt_def di_def by blast
qed

lemma usage_1_3:
  "fmul (fdiv (float64_of_uint64 1) (float64_of_uint64 3)) (Finite 100) =
     Finite (2345624805922133 / 70368744177664)"
proof -
  have a: "roundFloat64 3 = 3"
    using roundFloat64_small [of 1 3] by (simp add: round_even_def)
  have q: "roundFloat64 (1 / 3) = 6004799503160661 / 18014398509481984"
    using roundFloat64_frac [of 2 "1 / 3"] by (simp add: round_even_def)
  have p: "roundFloat64 (150119987579016525 / 4503599627370496) =
      2345624805922133 / 70368744177664"
    using roundFloat64_small [of 5 "150119987579016525 / 4503599627370496"]
    by (simp add: round_even_def)
  show ?thesis
    by (simp add: float64_of_uint64_value mkFloat64_def roundFloat64_1 a q p del: of_nat_unat)
qed

text \<open>
  C5. The claim: every call after the first returns 100 * (1 - idle_delta / total_delta)
  against the sample before it. The differences are unsigned: when \<^verbatim>\<open>iowait\<close> goes down
  so that idle grows by 100 and the total by 60, the claim's value is negative while the
  numerator wraps around and the sampler returns a huge percentage. And the value is
  computed in \<^verbatim>\<open>float64\<close>: with idle +2 and total +3 the result is the rounded
  2345624805922133 / 70368744177664, not 100 / 3.
\<close>

theorem C5_wrap_counterexample:
  "getCPUUsage_linux (FirstLine ''cpu  100 0 0 200 60 0 0 0 0 0'') 2
     \<lparr>user = 100, nice = 0, system = 0, idle = 100, iowait = 100, irq = 0, total = 300,
      time = 1\<rparr> =
     ((Finite 30744573456182587392, None),
      \<lparr>user = 100, nice = 0, system = 0, idle = 200, iowait = 60, irq = 0, total = 360,
       time = 2\<rparr>) \<and>
   100 * (1 - (200 - 100) / (360 - 300)) < (0 :: real) \<and>
   getCPUUsage_linux (FirstLine ''cpu  1001 0 0 1002 0 0 0 0 0 0'') 2
     \<lparr>user = 1000, nice = 0, system = 0, idle = 1000, iowait = 0, irq = 0, total = 2000,
      time = 1\<rparr> =
     ((Finite (2345624805922133 / 70368744177664), None),
      \<lparr>user = 1001, nice = 0, system = 0, idle = 1002, iowait = 0, irq = 0, total = 2003,
       time = 2\<rparr>) \<and>
   (2345624805922133 / 70368744177664 :: real) \<noteq> 100 * (1 - (1002 - 1000) / (2003 - 2000))"
proof -
  have r1: "readCPUStats (FirstLine ''cpu  100 0 0 200 60 0 0 0 0 0'') 2 =
     Inr \<lparr>user = 100, nice = 0, system = 0, idle = 200, iowait = 60, irq = 0, total = 360,
          time = 2\<rparr>"
    by (simp add: stat_eval)
  have r2: "readCPUStats (FirstLine ''cpu  1001 0 0 1002 0 0 0 0 0 0'') 2 =
     Inr \<lparr>user = 1001, nice = 0, system = 0, idle = 1002, iowait = 0, irq = 0, total = 2003,
          time = 2\<rparr>"
    by (simp add: stat_eval)
  have w: "(60 :: 64 word) - 100 = 60 - 100" by simp
  show ?thesis
    using usage_wrapped usage_1_3
    by (simp add: getCPUUsage_linux_def r1 r2)
qed

text \<open>
  C5, amended. On Linux, a call that reads the counters stores them as the sample for
  the next call. The first call after process start returns exactly 0, and so does a
  call whose stored sample has the total 0, which the sampler takes for no sample. A
  later call, when the total has grown, the growth of idle (which may be negative) is
  at most that of the total and their difference fits in 64 bits, returns
  100 * (1 - idle_delta / total_delta) against the stored sample up to the rounding of
  \<^verbatim>\<open>float64\<close>, within the relative error 2^-50; with the deltas +50 and +100 it
  returns exactly 50.
\<close>

theorem C5_cpu_sampler_linux:
  assumes "readCPUStats file now = Inr stats"
  shows "getCPUUsage_linux file now cpuStats_zero = ((Finite 0, None), stats) \<and>
         snd (getCPUUsage_linux file now lastCPUStats) = stats \<and>
         (total lastCPUStats = 0 \<longrightarrow>
            fst (getCPUUsage_linux file now lastCPUStats) = (Finite 0, None)) \<and>
         (0 < total lastCPUStats \<and>
          0 < uint (total stats) - uint (total lastCPUStats) \<and>
          uint (idle stats) - uint (idle lastCPUStats) \<le>
            uint (total stats) - uint (total lastCPUStats) \<and>
          (uint (total stats) - uint (total lastCPUStats)) -
            (uint (idle stats) - uint (idle lastCPUStats)) < 2 ^ 64 \<longrightarrow>
            (\<exists>x. fst (getCPUUsage_linux file now lastCPUStats) = (Finite x, None) \<and>
                 \<bar>x - 100 * (1 - real_of_int (uint (idle stats) - uint (idle lastCPUStats)) /
                                    real_of_int (uint (total stats) - uint (total lastCPUStats)))\<bar> \<le>
                 100 * (1 - real_of_int (uint (idle stats) - uint (idle lastCPUStats)) /
                            real_of_int (uint (total stats) - uint (total lastCPUStats))) / 2 ^ 50)) \<and>
         (0 < total lastCPUStats \<and> total stats - total lastCPUStats = 100 \<and>
          idle stats - idle lastCPUStats = 50 \<longrightarrow>
            fst (getCPUUsage_linux file now lastCPUStats) = (Finite 50, None))"
proof -
  have first: "getCPUUsage_linux file now cpuStats_zero = ((Finite 0, None), stats)"
    using assms by (simp add: getCPUUsage_linux_def cpuStats_zero_def)
  have none: "fst (getCPUUsage_linux file now lastCPUStats) = (Finite 0, None)"
    if "total lastCPUStats = 0"
    using assms that by (simp add: getCPUUsage_linux_def)
  have later: "\<exists>x. fst (getCPUUsage_linux file now lastCPUStats) = (Finite x, None) \<and>
      \<bar>x - 100 * (1 - real_of_int (uint (idle stats) - uint (idle lastCPUStats)) /
                         real_of_int (uint (total stats) - uint (total lastCPUStats)))\<bar> \<le>
      100 * (1 - real_of_int (uint (idle stats) - uint (idle lastCPUStats)) /
                 real_of_int (uint (total stats) - uint (total lastCPUStats))) / 2 ^ 50"
    if h: "0 < total lastCPUStats"
      "0 < uint (total stats) - uint (total lastCPUStats)"
      "uint (idle stats) - uint (idle lastCPUStats) \<le>
         uint (total stats) - uint (total lastCPUStats)"
      "(uint (total stats) - uint (total lastCPUStats)) -
         (uint (idle stats) - uint (idle lastCPUStats)) < 2 ^ 64"
  proof -
    have "uint (total stats - total lastCPUStats) = uint (total stats) - uint (total lastCPUStats)"
      using h(2) by (intro uint_delta) simp
    with h(2) have "total stats - total lastCPUStats \<noteq> 0" by auto
    then have adv: "0 < total stats - total lastCPUStats" by (simp add: word_gt_0)
    show ?thesis
      using assms h(1) adv usage_formula [OF h(2) h(3) h(4)]
      by (simp add: getCPUUsage_linux_def Let_def)
  qed
  have fifty: "fst (getCPUUsage_linux file now lastCPUStats) = (Finite 50, None)"
    if "0 < total lastCPUStats" "total stats - total lastCPUStats = 100"
      "idle stats - idle lastCPUStats = 50"
    using assms that usage_50_100 by (simp add: getCPUUsage_linux_def Let_def)
  from first getCPUUsage_linux_state [OF assms] none later fifty show ?thesis by blast
qed

theorem C5_cpu_sampler_linux_witness:
  "getCPUUsage_linux (FirstLine ''cpu  1000 0 0 1000 0 0 0 0 0 0'') 1 cpuStats_zero =
     ((Finite 0, None),
      \<lparr>user = 1000, nice = 0, system = 0, idle = 1000, iowait = 0, irq = 0, total = 2000,
       time = 1\<rparr>) \<and>
   fst (getCPUUsage_linux (FirstLine ''cpu  1050 0 0 1050 0 0 0 0 0 0'') 2
     \<lparr>user = 1000, nice = 0, system = 0, idle = 1000, iowait = 0, irq = 0, total = 2000,
      time = 1\<rparr>) = (Finite 50, None) \<and>
   (\<exists>x. fst (getCPUUsage_linux (FirstLine ''cpu  1001 0 0 1002 0 0 0 0 0 0'') 2
     \<lparr>user = 1000, nice = 0, system = 0, idle = 1000, iowait = 0, irq = 0, total = 2000,
      time = 1\<rparr>) = (Finite x, None) \<and> \<bar>x - 100 / 3\<bar> \<le> 100 / 3 / 2 ^ 50)"
proof -
  have r1: "readCPUStats (FirstLine ''cpu  1000 0 0 1000 0 0 0 0 0 0'') 1 =
     Inr \<lparr>user = 1000, nice = 0, system = 0, idle = 1000, iowait = 0, irq = 0,
          total = 2000, time = 1\<rparr>"
    by (simp add: stat_eval)
  have r2: "readCPUStats (FirstLine ''cpu  1050 0 0 1050 0 0 0 0 0 0'') 2 =
     Inr \<lparr>user = 1050, nice = 0, system = 0, idle = 1050, iowait = 0, irq = 0,
          total = 2100, time = 2\<rparr>"
    by (simp add: stat_eval)
  have r3: "readCPUStats (FirstLine ''cpu  1001 0 0 1002 0 0 0 0 0 0'') 2 =
     Inr \<lparr>user = 1001, nice = 0, system = 0, idle = 1002, iowait = 0, irq = 0,
          total = 2003, time = 2\<rparr>"
    by (simp add: stat_eval)
  show ?thesis
    using C5_cpu_sampler_linux [OF r1]
      C5_cpu_sampler_linux [OF r2, of "\<lparr>user = 1000, nice = 0, system = 0, idle = 1000,
        iowait = 0, irq = 0, total = 2000, time = 1\<rparr>"]
      C5_cpu_sampler_linux [OF r3, of "\<lparr>user = 1000, nice = 0, system = 0, idle = 1000,
        iowait = 0, irq = 0, total = 2000, time = 1\<rparr>"]
    by simp
qed

text \<open>
  C6. The claim: when the total delta is zero or negative the sampler reports 0. The
  delta is an unsigned 64-bit difference: when the counters go down it wraps around to
  a large positive number, and the sampler reports a percentage, not 0. Here \<^verbatim>\<open>iowait\<close>
  falls from 20 to 10 and the report is 100.
\<close>

theorem C6_decrease_counterexample:
  "getCPUUsage_linux (FirstLine ''cpu  50 0 0 50 10 0 0 0 0 0'') 2
     \<lparr>user = 50, nice = 0, system = 0, idle = 50, iowait = 20, irq = 0, total = 120,
      time = 1\<rparr> =
     ((Finite 100, None),
      \<lparr>user = 50, nice = 0, system = 0, idle = 50, iowait = 10, irq = 0, total = 110,
       time = 2\<rparr>)"
proof -
  have r: "readCPUStats (FirstLine ''cpu  50 0 0 50 10 0 0 0 0 0'') 2 =
     Inr \<lparr>user = 50, nice = 0, system = 0, idle = 50, iowait = 10, irq = 0, total = 110,
          time = 2\<rparr>"
    by (simp add: stat_eval)
  have nz: "(110 :: 64 word) - 120 \<noteq> 0" by simp
  show ?thesis
    using usage_equal [OF nz] by (simp add: getCPUUsage_linux_def r word_gt_0)
qed

text \<open>
  C6, amended. On Linux and on Windows, when the unsigned total delta is zero the
  sampler reports 0; and for all inputs the percentage is a finite number that is not
  negative, so no division by zero takes place.
\<close>

theorem C6_zero_delta_guard:
  "(readCPUStats file now = Inr stats \<and> total stats = total lastCPUStats \<longrightarrow>
      fst (getCPUUsage_linux file now lastCPUStats) = (Finite 0, None)) \<and>
   (GetSystemTimes sys = (ret, err, idleTime, kernelTime, userTime) \<and> ret \<noteq> 0 \<and>
    (fileTimeToUint64 kernelTime - w_kernel lastCPUTimes) +
    (fileTimeToUint64 userTime - w_user lastCPUTimes) = 0 \<longrightarrow>
      fst (getCPUUsage_windows sys lastCPUTimes) = (Finite 0, None)) \<and>
   (\<exists>x. fst (fst (getCPUUsage_linux file now lastCPUStats)) = Finite x \<and> 0 \<le> x) \<and>
   (\<exists>x. fst (fst (getCPUUsage_windows sys lastCPUTimes)) = Finite x \<and> 0 \<le> x)"
proof -
  have l0: "fst (getCPUUsage_linux file now lastCPUStats) = (Finite 0, None)"
    if "readCPUStats file now = Inr stats" "total stats = total lastCPUStats"
    using that by (simp add: getCPUUsage_linux_def Let_def)
  have w0: "fst (getCPUUsage_windows sys lastCPUTimes) = (Finite 0, None)"
    if "GetSystemTimes sys = (ret, err, idleTime, kernelTime, userTime)" "ret \<noteq> 0"
      "(fileTimeToUint64 kernelTime - w_kernel lastCPUTimes) +
       (fileTimeToUint64 userTime - w_user lastCPUTimes) = 0"
    using that by (simp add: getCPUUsage_windows_def Let_def)
  have ln: "\<exists>x. fst (fst (getCPUUsage_linux file now lastCPUStats)) = Finite x \<and> 0 \<le> x"
  proof (cases "readCPUStats file now")
    case (Inl e)
    then show ?thesis by (simp add: getCPUUsage_linux_def)
  next
    case (Inr st)
    show ?thesis
    proof (cases "0 < total lastCPUStats \<and> 0 < total st - total lastCPUStats")
      case True
      then have nz: "total st - total lastCPUStats \<noteq> 0" by auto
      show ?thesis
        using Inr True usage_nonneg [OF nz]
        by (simp add: getCPUUsage_linux_def Let_def)
    next
      case False
      then show ?thesis
        using Inr by (auto simp: getCPUUsage_linux_def Let_def)
    qed
  qed
  have wn: "\<exists>x. fst (fst (getCPUUsage_windows sys lastCPUTimes)) = Finite x \<and> 0 \<le> x"
  proof -
    obtain r e it kt ut where g: "GetSystemTimes sys = (r, e, it, kt, ut)"
      by (cases "GetSystemTimes sys") auto
    show ?thesis
    proof (cases "r \<noteq> 0 \<and> w_time lastCPUTimes \<noteq> 0 \<and>
        0 < (fileTimeToUint64 kt - w_kernel lastCPUTimes) +
            (fileTimeToUint64 ut - w_user lastCPUTimes)")
      case True
      then have nz: "(fileTimeToUint64 kt - w_kernel lastCPUTimes) +
            (fileTimeToUint64 ut - w_user lastCPUTimes) \<noteq> 0" by auto
      show ?thesis
        using g True usage_nonneg [OF nz]
        by (simp add: getCPUUsage_windows_def Let_def)
    next
      case False
      then show ?thesis
        using g by (auto simp: getCPUUsage_windows_def Let_def)
    qed
  qed
  from l0 w0 ln wn show ?thesis by blast
qed

theorem C6_zero_delta_guard_witness:
  "fst (getCPUUsage_linux (FirstLine ''cpu  1000 0 0 1000 0 0 0 0 0 0'') 2
     \<lparr>user = 1000, nice = 0, system = 0, idle = 1000, iowait = 0, irq = 0, total = 2000,
      time = 1\<rparr>) = (Finite 0, None) \<and>
   fst (getCPUUsage_windows
     \<lparr>GetSystemTimes = (1, ''The operation completed successfully.'',
        \<lparr>LowDateTime = 500, HighDateTime = 0\<rparr>, \<lparr>LowDateTime = 1000, HighDateTime = 0\<rparr>,
        \<lparr>LowDateTime = 1000, HighDateTime = 0\<rparr>),
      time_Now = 2, GlobalMemoryStatusEx = (0, ''failed'', 0, 0),
      GetDiskFreeSpaceExW = (0, ''failed'', 0, 0, 0), GetTickCount64 = 0\<rparr>
     \<lparr>w_idle = 500, w_kernel = 1000, w_user = 1000, w_time = 1\<rparr>) = (Finite 0, None)"
proof -
  have r1: "readCPUStats (FirstLine ''cpu  1000 0 0 1000 0 0 0 0 0 0'') 2 =
     Inr \<lparr>user = 1000, nice = 0, system = 0, idle = 1000, iowait = 0, irq = 0,
          total = 2000, time = 2\<rparr>"
    by (simp add: stat_eval)
  have ft: "fileTimeToUint64 \<lparr>LowDateTime = 1000, HighDateTime = 0\<rparr> = 1000"
    by (simp add: fileTimeToUint64_def)
  show ?thesis
    using r1 ft C6_zero_delta_guard [of "FirstLine ''cpu  1000 0 0 1000 0 0 0 0 0 0''" 2
        "\<lparr>user = 1000, nice = 0, system = 0, idle = 1000, iowait = 0, irq = 0,
          total = 2000, time = 2\<rparr>"
        "\<lparr>user = 1000, nice = 0, system = 0, idle = 1000, iowait = 0, irq = 0, total = 2000,
          time = 1\<rparr>"
        "\<lparr>GetSystemTimes = (1, ''The operation completed successfully.'',
            \<lparr>LowDateTime = 500, HighDateTime = 0\<rparr>, \<lparr>LowDateTime = 1000, HighDateTime = 0\<rparr>,
            \<lparr>LowDateTime = 1000, HighDateTime = 0\<rparr>),
          time_Now = 2, GlobalMemoryStatusEx = (0, ''failed'', 0, 0),
          GetDiskFreeSpaceExW = (0, ''failed'', 0, 0, 0), GetTickCount64 = 0\<rparr>"
        1 "''The operation completed successfully.''"
        "\<lparr>LowDateTime = 500, HighDateTime = 0\<rparr>" "\<lparr>LowDateTime = 1000, HighDateTime = 0\<rparr>"
        "\<lparr>LowDateTime = 1000, HighDateTime = 0\<rparr>"
        "\<lparr>w_idle = 500, w_kernel = 1000, w_user = 1000, w_time = 1\<rparr>"]
    by simp
qed

end
